theory Spec2Isabelle
  imports Main
begin

section \<open>The debuggee-side breakpoint registry of ansibug\<close>

text \<open>
  A shallow embedding of the breakpoint bookkeeping of \<^verbatim>\<open>AnsibleDebugger\<close> in
  \<^verbatim>\<open>src/ansibug/_debuggee.py\<close>: the per-path line tables, the registered
  breakpoints, the path mappings and the gate on the outbound queue.
  Python integers are \<open>int\<close>, a \<^verbatim>\<open>list[int | None]\<close> is an \<open>int option list\<close>,
  the insertion-ordered dict of breakpoints is an association list, and an exception
  is a value: every operation that mutates the debugger returns the exception raised
  (if any) together with the state as the mutation left it.
\<close>

subsection \<open>Python lists\<close>

datatype error = IndexError

text \<open>\<^verbatim>\<open>xs[i]\<close>: a negative index counts from the end, anything out of range raises.\<close>

definition py_getitem :: "'a list \<Rightarrow> int \<Rightarrow> error + 'a" where
  "py_getitem xs i =
     (if 0 \<le> i \<and> i < int (length xs) then Inr (xs ! nat i)
      else if i < 0 \<and> - int (length xs) \<le> i then Inr (xs ! nat (int (length xs) + i))
      else Inl IndexError)"

text \<open>\<^verbatim>\<open>xs[i] = v\<close>, with the same index rules.\<close>

definition py_setitem :: "'a list \<Rightarrow> int \<Rightarrow> 'a \<Rightarrow> error + 'a list" where
  "py_setitem xs i v =
     (if 0 \<le> i \<and> i < int (length xs) then Inr (xs[nat i := v])
      else if i < 0 \<and> - int (length xs) \<le> i then Inr (xs[nat (int (length xs) + i) := v])
      else Inl IndexError)"

text \<open>\<^verbatim>\<open>s.startswith(p)\<close> on strings.\<close>

definition startswith :: "string \<Rightarrow> string \<Rightarrow> bool" where
  "startswith s p = (take (length p) s = p)"

subsection \<open>Data\<close>

text \<open>
  A line table (\<^verbatim>\<open>_source_info[path]\<close>): \<open>None\<close> is a continuation line,
  \<open>Some 0\<close> a line where no breakpoint can be set, \<open>Some 1\<close> the start of a
  breakpoint range.
\<close>

type_synonym line_table = "int option list"

record path_mapping =
  local_root :: string
  remote_root :: string

text \<open>
  The protocol classes of the \<^verbatim>\<open>dap\<close> module, with the fields this file reads
  or writes: \<^verbatim>\<open>dap.Source\<close>, \<^verbatim>\<open>dap.SourceBreakpoint\<close> and \<^verbatim>\<open>dap.Breakpoint\<close>
  (whose remaining fields keep their default \<^verbatim>\<open>None\<close>).
\<close>

record dap_source =
  src_path :: "string option"

record source_breakpoint =
  sb_line :: int

record dap_breakpoint =
  bp_id :: "int option"
  bp_verified :: bool
  bp_message :: "string option"
  bp_source :: "dap_source option"
  bp_line :: "int option"
  bp_end_line :: "int option"

record ansible_line_breakpoint =
  alb_id :: int
  alb_source :: dap_source
  alb_source_breakpoint :: source_breakpoint
  alb_breakpoint :: dap_breakpoint
  actual_path :: string
  source_path :: string

record set_breakpoints_request =
  req_seq :: int
  req_source :: dap_source
  req_source_modified :: bool
  req_breakpoints :: "source_breakpoint list"

datatype protocol_message =
    SetBreakpointsResponse int "dap_breakpoint list"
  | BreakpointEvent string dap_breakpoint
  | OtherMessage string

text \<open>
  \<open>OtherMessage\<close> stands for every other response or event, by its name: the registry
  never builds one, but the strategy and the error path of the protocol send them.
\<close>

text \<open>
  The fields of \<^verbatim>\<open>AnsibleDebugger\<close> that the registry uses. The queue holds
  \<open>None\<close> for the end-of-session marker that \<^verbatim>\<open>connection_closed\<close> sends.
\<close>

record debugger =
  debug_config :: "path_mapping list"
  send_queue :: "protocol_message option list"
  send_queue_active :: bool
  breakpoints :: "(int \<times> ansible_line_breakpoint) list"
  breakpoint_counter :: int
  source_info :: "string \<rightharpoonup> line_table"

definition init :: debugger where
  "init = \<lparr> debug_config = [], send_queue = [], send_queue_active = False,
            breakpoints = [], breakpoint_counter = 1, source_info = Map.empty \<rparr>"

subsection \<open>The outbound queue\<close>

text \<open>\<^verbatim>\<open>send\<close>: a message is queued only while the queue is active.\<close>

definition send :: "debugger \<Rightarrow> protocol_message option \<Rightarrow> debugger" where
  "send st msg =
     (if send_queue_active st then st\<lparr>send_queue := send_queue st @ [msg]\<rparr> else st)"

subsection \<open>Path mappings\<close>

text \<open>The loop at the head of the set-breakpoints handler: client path to Ansible path.\<close>

fun convert_to_actual_path :: "path_mapping list \<Rightarrow> string \<Rightarrow> string" where
  "convert_to_actual_path [] p = p"
| "convert_to_actual_path (m # ms) p =
     (if startswith p (local_root m)
      then remote_root m @ drop (length (local_root m)) p
      else convert_to_actual_path ms p)"

fun convert_to_client_path :: "path_mapping list \<Rightarrow> string \<Rightarrow> string" where
  "convert_to_client_path [] p = p"
| "convert_to_client_path (m # ms) p =
     (if startswith p (remote_root m)
      then local_root m @ drop (length (remote_root m)) p
      else convert_to_client_path ms p)"

subsection \<open>Resolving a requested line against a table\<close>

text \<open>
  \<^verbatim>\<open>line_type = t[start_line]; while line_type is None: start_line -= 1; ...\<close>
  The result is the final \<^verbatim>\<open>start_line\<close> and \<^verbatim>\<open>line_type\<close>. An index below
  \<open>- len t\<close> raises, so the loop always ends.
\<close>

function scan_start :: "line_table \<Rightarrow> int \<Rightarrow> error + (int \<times> int)" where
  "scan_start t start_line =
     (case py_getitem t start_line of
        Inl e \<Rightarrow> Inl e
      | Inr None \<Rightarrow> scan_start t (start_line - 1)
      | Inr (Some line_type) \<Rightarrow> Inr (start_line, line_type))"
  by pat_completeness auto
termination
  by (relation "measure (\<lambda>(t, i). nat (i + int (length t) + 1))")
     (auto simp: py_getitem_def Let_def split: if_splits)

declare scan_start.simps [simp del]

text \<open>\<^verbatim>\<open>while end_line < len(t) and t[end_line] is None: end_line += 1\<close>\<close>

function scan_end :: "line_table \<Rightarrow> int \<Rightarrow> error + int" where
  "scan_end t end_line =
     (if end_line < int (length t)
      then (case py_getitem t end_line of
              Inl e \<Rightarrow> Inl e
            | Inr None \<Rightarrow> scan_end t (end_line + 1)
            | Inr (Some _) \<Rightarrow> Inr end_line)
      else Inr end_line)"
  by pat_completeness auto
termination
  by (relation "measure (\<lambda>(t, i). nat (int (length t) - i))") auto

declare scan_end.simps [simp del]

text \<open>
  The resolution block, written twice in the source with the same text (in
  \<^verbatim>\<open>register_path_breakpoint\<close> and in the set-breakpoints handler). It yields
  \<^verbatim>\<open>(verified, bp_msg, start_line, end_line)\<close>.
\<close>

definition resolve_line :: "line_table \<Rightarrow> int \<Rightarrow> error + (bool \<times> string option \<times> int \<times> int)" where
  "resolve_line t line =
     (let start_line = min line (int (length t) - 1);
          end_line = start_line + 1
      in case scan_start t start_line of
           Inl e \<Rightarrow> Inl e
         | Inr (start_line, line_type) \<Rightarrow>
             (case scan_end t end_line of
                Inl e \<Rightarrow> Inl e
              | Inr end_line \<Rightarrow>
                  (let end_line = min (end_line - 1) (int (length t))
                   in if line_type = 0
                      then Inr (False, Some ''Breakpoint cannot be set here.'', start_line, end_line)
                      else Inr (True, None, start_line, end_line))))"

subsection \<open>Registering a line: \<^verbatim>\<open>register_path_breakpoint\<close>\<close>

text \<open>
  The loop over \<^verbatim>\<open>self._breakpoints.values()\<close>. A breakpoint on another path is
  skipped; one on this path is resolved again, and when its verified flag, line or
  end line differs its \<^verbatim>\<open>breakpoint\<close> field is replaced and a changed event is handed
  to \<^verbatim>\<open>send\<close>. The result is the exception (if one was raised), the breakpoints as the
  loop left them, and the debugger with the queue as the loop left it.
\<close>

fun reresolve_loop ::
  "line_table \<Rightarrow> string \<Rightarrow> (int \<times> ansible_line_breakpoint) list \<Rightarrow> debugger
     \<Rightarrow> error option \<times> (int \<times> ansible_line_breakpoint) list \<times> debugger" where
  "reresolve_loop file_lines p [] st = (None, [], st)"
| "reresolve_loop file_lines p ((k, b) # bs) st =
     (if actual_path b \<noteq> p
      then (case reresolve_loop file_lines p bs st of (e, bs', st') \<Rightarrow> (e, (k, b) # bs', st'))
      else
        (case resolve_line file_lines (sb_line (alb_source_breakpoint b)) of
           Inl e \<Rightarrow> (Some e, (k, b) # bs, st)
         | Inr (verified, bp_msg, start_line, end_line) \<Rightarrow>
             if bp_verified (alb_breakpoint b) \<noteq> verified
                \<or> bp_line (alb_breakpoint b) \<noteq> Some start_line
                \<or> bp_end_line (alb_breakpoint b) \<noteq> Some end_line
             then
               (let bp = \<lparr> bp_id = Some (alb_id b), bp_verified = verified,
                            bp_message = bp_msg, bp_source = Some (alb_source b),
                            bp_line = Some start_line, bp_end_line = Some end_line \<rparr>;
                    st1 = send st (Some (BreakpointEvent ''changed'' bp))
                in case reresolve_loop file_lines p bs st1 of
                     (e, bs', st') \<Rightarrow> (e, (k, b\<lparr>alb_breakpoint := bp\<rparr>) # bs', st'))
             else
               (case reresolve_loop file_lines p bs st of
                  (e, bs', st') \<Rightarrow> (e, (k, b) # bs', st'))))"

text \<open>
  \<^verbatim>\<open>setdefault(path, [0])\<close>, \<^verbatim>\<open>extend([None] * (1 + line - len(file_lines)))\<close>
  (a count below one adds nothing), \<^verbatim>\<open>file_lines[line] = bp_type\<close>, then the loop.
  The table is a list mutated in place: what \<^verbatim>\<open>setdefault\<close> and \<^verbatim>\<open>extend\<close> did
  stays when the assignment raises.
\<close>

definition register_path_breakpoint ::
  "debugger \<Rightarrow> string \<Rightarrow> int \<Rightarrow> int \<Rightarrow> error option \<times> debugger" where
  "register_path_breakpoint st p line bp_type =
     (let file_lines = (case source_info st p of None \<Rightarrow> [Some 0] | Some t \<Rightarrow> t);
          file_lines = file_lines @ replicate (nat (1 + line - int (length file_lines))) None
      in case py_setitem file_lines line (Some bp_type) of
           Inl e \<Rightarrow> (Some e, st\<lparr>source_info := (source_info st)(p \<mapsto> file_lines)\<rparr>)
         | Inr file_lines \<Rightarrow>
             (let st1 = st\<lparr>source_info := (source_info st)(p \<mapsto> file_lines)\<rparr>
              in case reresolve_loop file_lines p (breakpoints st1) st1 of
                   (e, bs', st2) \<Rightarrow> (e, st2\<lparr>breakpoints := bs'\<rparr>)))"

subsection \<open>The set-breakpoints request\<close>

text \<open>\<^verbatim>\<open>d[k] = v\<close> on an insertion-ordered dict: replace in place, or append.\<close>

fun dict_setitem :: "('k \<times> 'v) list \<Rightarrow> 'k \<Rightarrow> 'v \<Rightarrow> ('k \<times> 'v) list" where
  "dict_setitem [] k v = [(k, v)]"
| "dict_setitem ((k', v') # d) k v =
     (if k' = k then (k, v) # d else (k', v') # dict_setitem d k v)"

text \<open>
  The loop over \<^verbatim>\<open>msg.breakpoints\<close>. \<^verbatim>\<open>info\<close> is \<^verbatim>\<open>breakpoint_info\<close>, the
  entries of the response so far; \<^verbatim>\<open>tbl\<close> is \<^verbatim>\<open>source_info\<close>, read once before
  the loop (\<^verbatim>\<open>not source_info\<close> holds for \<^verbatim>\<open>None\<close> and for the empty list).
\<close>

fun set_breakpoints_loop ::
  "dap_source \<Rightarrow> bool \<Rightarrow> line_table option \<Rightarrow> string \<Rightarrow> string \<Rightarrow> source_breakpoint list
     \<Rightarrow> dap_breakpoint list \<Rightarrow> debugger \<Rightarrow> error option \<times> dap_breakpoint list \<times> debugger" where
  "set_breakpoints_loop src modified tbl actual spath [] info st = (None, info, st)"
| "set_breakpoints_loop src modified tbl actual spath (sb # sbs) info st =
     (let new_id = breakpoint_counter st;
          st = st\<lparr>breakpoint_counter := new_id + 1\<rparr>
      in if modified
         then set_breakpoints_loop src modified tbl actual spath sbs
                (info @ [\<lparr> bp_id = Some new_id, bp_verified = False,
                           bp_message = Some ''Cannot set breakpoint on a modified source.'',
                           bp_source = Some src, bp_line = None, bp_end_line = None \<rparr>]) st
         else
           (case (if tbl = None \<or> tbl = Some []
                  then Inr \<lparr> bp_id = Some new_id, bp_verified = False,
                             bp_message = Some ''File has not been loaded by Ansible, cannot detect breakpoints yet.'',
                             bp_source = Some src, bp_line = Some (sb_line sb), bp_end_line = None \<rparr>
                  else (case resolve_line (the tbl) (sb_line sb) of
                          Inl e \<Rightarrow> Inl e
                        | Inr (verified, bp_msg, start_line, end_line) \<Rightarrow>
                            Inr \<lparr> bp_id = Some new_id, bp_verified = verified,
                                  bp_message = bp_msg, bp_source = Some src,
                                  bp_line = Some start_line, bp_end_line = Some end_line \<rparr>)) of
              Inl e \<Rightarrow> (Some e, info, st)
            | Inr bp \<Rightarrow>
                set_breakpoints_loop src modified tbl actual spath sbs (info @ [bp])
                  (st\<lparr>breakpoints := dict_setitem (breakpoints st) new_id
                        \<lparr> alb_id = new_id, alb_source = src, alb_source_breakpoint = sb,
                          alb_breakpoint = bp, actual_path = actual, source_path = spath \<rparr>\<rparr>)))"

text \<open>
  \<^verbatim>\<open>process_message\<close> for a \<^verbatim>\<open>SetBreakpointsRequest\<close>: map the path, drop the stored
  breakpoints of this client path, run the loop, send the response.
\<close>

definition process_message :: "debugger \<Rightarrow> set_breakpoints_request \<Rightarrow> error option \<times> debugger" where
  "process_message st msg =
     (let spath = (case src_path (req_source msg) of None \<Rightarrow> '''' | Some s \<Rightarrow> s);
          actual = convert_to_actual_path (debug_config st) spath;
          tbl = source_info st actual;
          st1 = st\<lparr>breakpoints := filter (\<lambda>(bpid, b). source_path b \<noteq> spath) (breakpoints st)\<rparr>
      in case set_breakpoints_loop (req_source msg) (req_source_modified msg) tbl actual spath
                (req_breakpoints msg) [] st1 of
           (Some e, info, st2) \<Rightarrow> (Some e, st2)
         | (None, info, st2) \<Rightarrow>
             (None, send st2 (Some (SetBreakpointsResponse (req_seq msg) info))))"

subsection \<open>The pause decision: \<^verbatim>\<open>get_breakpoint\<close>\<close>

definition bp_matches :: "ansible_line_breakpoint \<Rightarrow> string \<Rightarrow> int \<Rightarrow> bool" where
  "bp_matches b p line =
     (actual_path b = p
      \<and> (case bp_line (alb_breakpoint b) of None \<Rightarrow> True | Some l \<Rightarrow> l \<le> line)
      \<and> (case bp_end_line (alb_breakpoint b) of None \<Rightarrow> True | Some l \<Rightarrow> l \<ge> line))"

fun first_match :: "(int \<times> ansible_line_breakpoint) list \<Rightarrow> string \<Rightarrow> int
     \<Rightarrow> ansible_line_breakpoint option" where
  "first_match [] p line = None"
| "first_match ((k, b) # bs) p line =
     (if bp_matches b p line then Some b else first_match bs p line)"

definition get_breakpoint :: "debugger \<Rightarrow> string \<Rightarrow> int \<Rightarrow> ansible_line_breakpoint option" where
  "get_breakpoint st p line =
     (if \<not> send_queue_active st then None else first_match (breakpoints st) p line)"

subsection \<open>The life of a debugger\<close>

text \<open>
  One step of the debugger, as far as the registry sees it: a connection is made, the
  configuration event replaces the path mappings, the background task takes a message
  off the queue, the task ends (the queue is emptied and switched off), somebody calls
  \<^verbatim>\<open>send\<close> (the strategy with an event, the protocol with an error response, the
  closed connection with the end marker), the strategy registers a line, the client
  sets breakpoints. A step that raises leaves the state the exception found.
\<close>

inductive step :: "debugger \<Rightarrow> debugger \<Rightarrow> bool" where
  connection_made: "step st (st\<lparr>send_queue_active := True\<rparr>)"
| output_event: "step st (st\<lparr>debug_config := cfg\<rparr>)"
| queue_get: "step st (st\<lparr>send_queue := tl (send_queue st)\<rparr>)"
| task_end: "step st (st\<lparr>send_queue := [], send_queue_active := False\<rparr>)"
| sent: "step st (send st m)"
| register: "register_path_breakpoint st p line bp_type = (e, st') \<Longrightarrow> step st st'"
| set_breakpoints: "process_message st msg = (e, st') \<Longrightarrow> step st st'"

inductive evolves :: "debugger \<Rightarrow> debugger \<Rightarrow> bool" where
  evolves_refl: "evolves st st"
| evolves_step: "evolves st st1 \<Longrightarrow> step st1 st2 \<Longrightarrow> evolves st st2"

definition reachable :: "debugger \<Rightarrow> bool" where
  "reachable st = evolves init st"

subsection \<open>Invariants and abbreviations used in the statements\<close>

text \<open>A table as \<^verbatim>\<open>setdefault(path, [0])\<close> starts it: not empty, slot 0 not a continuation.\<close>

definition wf_table :: "line_table \<Rightarrow> bool" where
  "wf_table t = (t \<noteq> [] \<and> t ! 0 \<noteq> None)"

definition tables_ok :: "debugger \<Rightarrow> bool" where
  "tables_ok st = (\<forall>p t. source_info st p = Some t \<longrightarrow> wf_table t)"

text \<open>Every stored breakpoint carries its key as its id, below the counter.\<close>

definition ids_ok :: "debugger \<Rightarrow> bool" where
  "ids_ok st = (\<forall>(k, b) \<in> set (breakpoints st).
       k < breakpoint_counter st \<and> alb_id b = k \<and> bp_id (alb_breakpoint b) = Some k)"

text \<open>
  The \<^verbatim>\<open>dap.Breakpoint\<close> that the loop of \<^verbatim>\<open>register_path_breakpoint\<close> builds from a
  resolution, and its test for a change.
\<close>

definition resolved_bp ::
  "ansible_line_breakpoint \<Rightarrow> bool \<times> string option \<times> int \<times> int \<Rightarrow> dap_breakpoint" where
  "resolved_bp b r = (case r of (verified, bp_msg, start_line, end_line) \<Rightarrow>
      \<lparr> bp_id = Some (alb_id b), bp_verified = verified, bp_message = bp_msg,
        bp_source = Some (alb_source b), bp_line = Some start_line, bp_end_line = Some end_line \<rparr>)"

definition differs :: "dap_breakpoint \<Rightarrow> bool \<times> string option \<times> int \<times> int \<Rightarrow> bool" where
  "differs bp r = (case r of (verified, bp_msg, start_line, end_line) \<Rightarrow>
      bp_verified bp \<noteq> verified \<or> bp_line bp \<noteq> Some start_line \<or> bp_end_line bp \<noteq> Some end_line)"

text \<open>The three kinds of entry that the set-breakpoints loop builds.\<close>

definition modified_bp :: "dap_source \<Rightarrow> int \<Rightarrow> dap_breakpoint" where
  "modified_bp src i =
     \<lparr> bp_id = Some i, bp_verified = False,
       bp_message = Some ''Cannot set breakpoint on a modified source.'',
       bp_source = Some src, bp_line = None, bp_end_line = None \<rparr>"

definition not_loaded_bp :: "dap_source \<Rightarrow> int \<Rightarrow> int \<Rightarrow> dap_breakpoint" where
  "not_loaded_bp src i line =
     \<lparr> bp_id = Some i, bp_verified = False,
       bp_message = Some ''File has not been loaded by Ansible, cannot detect breakpoints yet.'',
       bp_source = Some src, bp_line = Some line, bp_end_line = None \<rparr>"

definition located_bp :: "dap_source \<Rightarrow> int \<Rightarrow> bool \<times> string option \<times> int \<times> int \<Rightarrow> dap_breakpoint" where
  "located_bp src i r = (case r of (verified, bp_msg, start_line, end_line) \<Rightarrow>
      \<lparr> bp_id = Some i, bp_verified = verified, bp_message = bp_msg,
        bp_source = Some src, bp_line = Some start_line, bp_end_line = Some end_line \<rparr>)"

definition stored ::
  "int \<Rightarrow> dap_source \<Rightarrow> source_breakpoint \<Rightarrow> dap_breakpoint \<Rightarrow> string \<Rightarrow> string
     \<Rightarrow> ansible_line_breakpoint" where
  "stored i src sb bp actual spath =
     \<lparr> alb_id = i, alb_source = src, alb_source_breakpoint = sb, alb_breakpoint = bp,
       actual_path = actual, source_path = spath \<rparr>"

text \<open>The table of a path after \<^verbatim>\<open>setdefault\<close> and \<^verbatim>\<open>extend\<close>, before the assignment.\<close>

definition extended :: "debugger \<Rightarrow> string \<Rightarrow> int \<Rightarrow> line_table" where
  "extended st p line =
     (let file_lines = (case source_info st p of None \<Rightarrow> [Some 0] | Some t \<Rightarrow> t)
      in file_lines @ replicate (nat (1 + line - int (length file_lines))) None)"

text \<open>The client path of a request: \<^verbatim>\<open>msg.source.path or ""\<close>.\<close>

definition client_path :: "set_breakpoints_request \<Rightarrow> string" where
  "client_path msg = (case src_path (req_source msg) of None \<Rightarrow> '''' | Some s \<Rightarrow> s)"

subsection \<open>Example debuggers\<close>

text \<open>
  A client attaches and sets breakpoints on lines 3 and 5 of a file that Ansible has
  not loaded yet (\<open>pending\<close>); the background task then ends (\<open>detached\<close>).
  In \<open>table_0_3_5\<close> the strategy has registered lines 0, 3 and 5 of the file.
\<close>

definition request :: "string \<Rightarrow> bool \<Rightarrow> int list \<Rightarrow> set_breakpoints_request" where
  "request p modified lines =
     \<lparr> req_seq = 1, req_source = \<lparr> src_path = Some p \<rparr>, req_source_modified = modified,
       req_breakpoints = map (\<lambda>l. \<lparr> sb_line = l \<rparr>) lines \<rparr>"

definition attached :: debugger where
  "attached = init\<lparr>send_queue_active := True\<rparr>"

definition pending :: debugger where
  "pending = snd (process_message attached (request ''main.yml'' False [3, 5]))"

definition detached :: debugger where
  "detached = pending\<lparr>send_queue := [], send_queue_active := False\<rparr>"

definition table_0_3_5 :: debugger where
  "table_0_3_5 =
     snd (register_path_breakpoint
       (snd (register_path_breakpoint
          (snd (register_path_breakpoint attached ''main.yml'' 0 0)) ''main.yml'' 3 1))
       ''main.yml'' 5 0)"

text \<open>In \<open>two_files\<close> the client has also set a breakpoint in a second file.\<close>

definition two_files :: debugger where
  "two_files = snd (process_message pending (request ''tasks.yml'' False [2]))"

text \<open>Two lists of path mappings: one whose remote roots clash, one whose roots are apart.\<close>

definition clashing_mappings :: "path_mapping list" where
  "clashing_mappings =
     [\<lparr> local_root = ''/a'', remote_root = ''/x'' \<rparr>,
      \<lparr> local_root = ''/b'', remote_root = ''/x'' \<rparr>]"

definition distinct_mappings :: "path_mapping list" where
  "distinct_mappings =
     [\<lparr> local_root = ''/home/dev'', remote_root = ''/srv/play'' \<rparr>,
      \<lparr> local_root = ''/opt/roles'', remote_root = ''/etc/roles'' \<rparr>]"

text \<open>
  What the loop of \<^verbatim>\<open>register_path_breakpoint\<close> does to one entry of the registry, as a
  relation between the entry before and after: the key stays; an entry of another path
  stays; an entry of this path is resolved against the table, and its \<^verbatim>\<open>breakpoint\<close>
  is replaced when the resolution differs from it.
\<close>

definition reresolved ::
  "line_table \<Rightarrow> string \<Rightarrow> int \<times> ansible_line_breakpoint \<Rightarrow> int \<times> ansible_line_breakpoint \<Rightarrow> bool" where
  "reresolved t p old new =
     (fst new = fst old
      \<and> (if actual_path (snd old) \<noteq> p then snd new = snd old
         else (\<exists>r. resolve_line t (sb_line (alb_source_breakpoint (snd old))) = Inr r
                 \<and> snd new = (if differs (alb_breakpoint (snd old)) r
                               then (snd old)\<lparr>alb_breakpoint := resolved_bp (snd old) r\<rparr>
                               else snd old))))"

text \<open>Two states of a breakpoint differ in the verified flag, the line or the end line.\<close>

definition state_changed :: "dap_breakpoint \<Rightarrow> dap_breakpoint \<Rightarrow> bool" where
  "state_changed a b =
     (bp_verified a \<noteq> bp_verified b \<or> bp_line a \<noteq> bp_line b \<or> bp_end_line a \<noteq> bp_end_line b)"

text \<open>
  The changed events for the entries of a path whose state changed between two
  registries of the same shape, in the order of the registry, each with the new state.
\<close>

definition changed_events ::
  "string \<Rightarrow> (int \<times> ansible_line_breakpoint) list \<Rightarrow> (int \<times> ansible_line_breakpoint) list
     \<Rightarrow> protocol_message option list" where
  "changed_events p old new =
     map (\<lambda>(x, y). Some (BreakpointEvent ''changed'' (alb_breakpoint (snd y))))
       (filter (\<lambda>(x, y). actual_path (snd x) = p
                  \<and> state_changed (alb_breakpoint (snd x)) (alb_breakpoint (snd y)))
          (zip old new))"

text \<open>
  The first three statements of \<^verbatim>\<open>register_path_breakpoint\<close> as a function of the table
  alone, for a line that is not negative, and the strategy registering a list of
  \<open>(line, kind)\<close> pairs for one path, one call after the other.
\<close>

definition write_line :: "line_table option \<Rightarrow> int \<Rightarrow> int \<Rightarrow> line_table" where
  "write_line tbl line k =
     (let file_lines = (case tbl of None \<Rightarrow> [Some 0] | Some t \<Rightarrow> t)
      in (file_lines @ replicate (nat (1 + line - int (length file_lines))) None)
           [nat line := Some k])"

definition register_all :: "debugger \<Rightarrow> string \<Rightarrow> (int \<times> int) list \<Rightarrow> debugger" where
  "register_all st p regs =
     foldl (\<lambda>s (line, k). snd (register_path_breakpoint s p line k)) st regs"

section \<open>Properties\<close>

subsection \<open>Scanning a well-formed table\<close>

lemma py_getitem_nonneg:
  "0 \<le> i \<Longrightarrow> i < int (length xs) \<Longrightarrow> py_getitem xs i = Inr (xs ! nat i)"
  by (simp add: py_getitem_def)

lemma scan_start_wf:
  "wf_table t \<Longrightarrow> 0 \<le> i \<Longrightarrow> i < int (length t) \<Longrightarrow>
   \<exists>s lt. scan_start t i = Inr (s, lt) \<and> 0 \<le> s \<and> s \<le> i \<and> t ! nat s = Some lt
          \<and> (\<forall>j. s < j \<and> j \<le> i \<longrightarrow> t ! nat j = None)"
proof (induction t i rule: scan_start.induct)
  case (1 t i)
  have g: "py_getitem t i = Inr (t ! nat i)" using 1 by (simp add: py_getitem_nonneg)
  show ?case
  proof (cases "t ! nat i")
    case None
    with 1(2) have "i \<noteq> 0" by (auto simp: wf_table_def)
    with 1 have "0 \<le> i - 1" "i - 1 < int (length t)" by auto
    with 1(1)[of None] g None 1(2) obtain s lt where
      h: "scan_start t (i - 1) = Inr (s, lt)" "0 \<le> s" "s \<le> i - 1" "t ! nat s = Some lt"
         "\<forall>j. s < j \<and> j \<le> i - 1 \<longrightarrow> t ! nat j = None" by auto
    have "scan_start t i = scan_start t (i - 1)"
      using g None by (subst scan_start.simps) simp
    moreover have "\<forall>j. s < j \<and> j \<le> i \<longrightarrow> t ! nat j = None"
    proof (intro allI impI)
      fix j assume "s < j \<and> j \<le> i"
      then have "j = i \<or> (s < j \<and> j \<le> i - 1)" by auto
      then show "t ! nat j = None" using None h(5) by auto
    qed
    ultimately show ?thesis using h by (intro exI[of _ s] exI[of _ lt]) auto
  next
    case (Some lt)
    have "scan_start t i = Inr (i, lt)"
      using g Some by (subst scan_start.simps) simp
    then show ?thesis using Some 1(3) by (intro exI[of _ i] exI[of _ lt]) auto
  qed
qed

lemma scan_end_bounds:
  "0 \<le> i \<Longrightarrow> i \<le> int (length t) \<Longrightarrow>
   \<exists>e. scan_end t i = Inr e \<and> i \<le> e \<and> e \<le> int (length t)
        \<and> (\<forall>j. i \<le> j \<and> j < e \<longrightarrow> t ! nat j = None)
        \<and> (e < int (length t) \<longrightarrow> t ! nat e \<noteq> None)"
proof (induction t i rule: scan_end.induct)
  case (1 t i)
  show ?case
  proof (cases "i < int (length t)")
    case False
    then have "scan_end t i = Inr i" by (subst scan_end.simps) simp
    then show ?thesis using False 1(3) by (intro exI[of _ i]) auto
  next
    case True
    have g: "py_getitem t i = Inr (t ! nat i)" using 1 True by (simp add: py_getitem_nonneg)
    show ?thesis
    proof (cases "t ! nat i")
      case None
      from 1(1)[OF True, of None] g None 1(2) True obtain e where
        h: "scan_end t (i + 1) = Inr e" "i + 1 \<le> e" "e \<le> int (length t)"
           "\<forall>j. i + 1 \<le> j \<and> j < e \<longrightarrow> t ! nat j = None"
           "e < int (length t) \<longrightarrow> t ! nat e \<noteq> None" by auto
      have "scan_end t i = scan_end t (i + 1)"
        using g None True by (subst scan_end.simps) simp
      moreover have "\<forall>j. i \<le> j \<and> j < e \<longrightarrow> t ! nat j = None"
      proof (intro allI impI)
        fix j assume "i \<le> j \<and> j < e"
        then have "j = i \<or> (i + 1 \<le> j \<and> j < e)" by auto
        then show "t ! nat j = None" using None h(4) by auto
      qed
      ultimately show ?thesis using h by (intro exI[of _ e]) auto
    next
      case (Some a)
      have "scan_end t i = Inr i"
        using g Some True by (subst scan_end.simps) simp
      then show ?thesis using True Some by (intro exI[of _ i]) auto
    qed
  qed
qed

text \<open>
  On a well-formed table a requested line that is not negative always resolves: the
  start is the nearest classified slot at or below the clamped line, the end line is
  the last slot before the next classified one (or the last slot of the table).
\<close>

lemma resolve_line_wf:
  assumes "wf_table t" "0 \<le> line"
  shows "\<exists>s e lt. resolve_line t line =
            Inr (lt \<noteq> 0, (if lt = 0 then Some ''Breakpoint cannot be set here.'' else None), s, e)
          \<and> 0 \<le> s \<and> s \<le> min line (int (length t) - 1) \<and> min line (int (length t) - 1) \<le> e
          \<and> e < int (length t)
          \<and> t ! nat s = Some lt
          \<and> (\<forall>j. s < j \<and> j \<le> e \<longrightarrow> t ! nat j = None)
          \<and> (e + 1 < int (length t) \<longrightarrow> t ! nat (e + 1) \<noteq> None)"
proof -
  define n where "n = min line (int (length t) - 1)"
  have tne: "t \<noteq> []" using assms by (simp add: wf_table_def)
  then have n: "0 \<le> n" "n < int (length t)"
    using assms(2) by (auto simp: n_def min_def)
  from scan_start_wf[OF assms(1) n] obtain s lt where
    s: "scan_start t n = Inr (s, lt)" "0 \<le> s" "s \<le> n" "t ! nat s = Some lt"
       "\<forall>j. s < j \<and> j \<le> n \<longrightarrow> t ! nat j = None" by auto
  from scan_end_bounds[of "n + 1" t] n obtain e where
    e: "scan_end t (n + 1) = Inr e" "n + 1 \<le> e" "e \<le> int (length t)"
       "\<forall>j. n + 1 \<le> j \<and> j < e \<longrightarrow> t ! nat j = None" "e < int (length t) \<longrightarrow> t ! nat e \<noteq> None" by auto
  have e1: "min (e - 1) (int (length t)) = e - 1" using e(3) by auto
  have "resolve_line t line =
          Inr (lt \<noteq> 0, (if lt = 0 then Some ''Breakpoint cannot be set here.'' else None), s, e - 1)"
    using s(1) e(1) e1 by (simp add: resolve_line_def Let_def n_def)
  moreover have "\<forall>j. s < j \<and> j \<le> e - 1 \<longrightarrow> t ! nat j = None"
  proof (intro allI impI)
    fix j assume "s < j \<and> j \<le> e - 1"
    then have "(s < j \<and> j \<le> n) \<or> (n + 1 \<le> j \<and> j < e)" by auto
    then show "t ! nat j = None" using s(5) e(4) by auto
  qed
  moreover have "e - 1 + 1 < int (length t) \<longrightarrow> t ! nat (e - 1 + 1) \<noteq> None" using e(5) by simp
  ultimately show ?thesis using s(2,3,4) e(2,3) unfolding n_def[symmetric]
    by (intro exI[of _ s] exI[of _ "e - 1"] exI[of _ lt]) auto
qed


subsection \<open>The loop of \<^verbatim>\<open>register_path_breakpoint\<close>, case by case\<close>

lemma send_fields [simp]:
  "breakpoints (send st m) = breakpoints st"
  "breakpoint_counter (send st m) = breakpoint_counter st"
  "source_info (send st m) = source_info st"
  "send_queue_active (send st m) = send_queue_active st"
  "debug_config (send st m) = debug_config st"
  by (simp_all add: send_def)

lemma reresolve_loop_skip:
  "actual_path b \<noteq> p \<Longrightarrow> reresolve_loop t p bs st = (e, bs', st') \<Longrightarrow>
   reresolve_loop t p ((k, b) # bs) st = (e, (k, b) # bs', st')"
  by simp

lemma reresolve_loop_raise:
  "actual_path b = p \<Longrightarrow> resolve_line t (sb_line (alb_source_breakpoint b)) = Inl err \<Longrightarrow>
   reresolve_loop t p ((k, b) # bs) st = (Some err, (k, b) # bs, st)"
  by simp

lemma reresolve_loop_changed:
  "actual_path b = p \<Longrightarrow> resolve_line t (sb_line (alb_source_breakpoint b)) = Inr r \<Longrightarrow>
   differs (alb_breakpoint b) r \<Longrightarrow>
   reresolve_loop t p bs (send st (Some (BreakpointEvent ''changed'' (resolved_bp b r)))) = (e, bs', st') \<Longrightarrow>
   reresolve_loop t p ((k, b) # bs) st = (e, (k, b\<lparr>alb_breakpoint := resolved_bp b r\<rparr>) # bs', st')"
  by (cases r) (auto simp: differs_def resolved_bp_def Let_def)

lemma reresolve_loop_same:
  "actual_path b = p \<Longrightarrow> resolve_line t (sb_line (alb_source_breakpoint b)) = Inr r \<Longrightarrow>
   \<not> differs (alb_breakpoint b) r \<Longrightarrow> reresolve_loop t p bs st = (e, bs', st') \<Longrightarrow>
   reresolve_loop t p ((k, b) # bs) st = (e, (k, b) # bs', st')"
  by (cases r) (auto simp: differs_def Let_def)

lemma reresolve_loop_induct [consumes 1, case_names Nil Skip Raise Changed Same]:
  assumes run: "reresolve_loop t p bs st = (e, bs', st')"
    and Nil: "\<And>st. P [] st None [] st"
    and Skip: "\<And>k b bs st e bs' st'. actual_path b \<noteq> p \<Longrightarrow>
        reresolve_loop t p bs st = (e, bs', st') \<Longrightarrow> P bs st e bs' st' \<Longrightarrow>
        P ((k, b) # bs) st e ((k, b) # bs') st'"
    and Raise: "\<And>k b bs st err. actual_path b = p \<Longrightarrow>
        resolve_line t (sb_line (alb_source_breakpoint b)) = Inl err \<Longrightarrow>
        P ((k, b) # bs) st (Some err) ((k, b) # bs) st"
    and Changed: "\<And>k b bs st r e bs' st'. actual_path b = p \<Longrightarrow>
        resolve_line t (sb_line (alb_source_breakpoint b)) = Inr r \<Longrightarrow>
        differs (alb_breakpoint b) r \<Longrightarrow>
        reresolve_loop t p bs (send st (Some (BreakpointEvent ''changed'' (resolved_bp b r)))) = (e, bs', st') \<Longrightarrow>
        P bs (send st (Some (BreakpointEvent ''changed'' (resolved_bp b r)))) e bs' st' \<Longrightarrow>
        P ((k, b) # bs) st e ((k, b\<lparr>alb_breakpoint := resolved_bp b r\<rparr>) # bs') st'"
    and Same: "\<And>k b bs st r e bs' st'. actual_path b = p \<Longrightarrow>
        resolve_line t (sb_line (alb_source_breakpoint b)) = Inr r \<Longrightarrow>
        \<not> differs (alb_breakpoint b) r \<Longrightarrow>
        reresolve_loop t p bs st = (e, bs', st') \<Longrightarrow> P bs st e bs' st' \<Longrightarrow>
        P ((k, b) # bs) st e ((k, b) # bs') st'"
  shows "P bs st e bs' st'"
  using run
proof (induction bs arbitrary: st e bs' st')
  case Nil
  then show ?case using assms(2) by simp
next
  case (Cons kb bs)
  obtain k b where kb: "kb = (k, b)" by (cases kb)
  show ?case
  proof (cases "actual_path b \<noteq> p")
    case True
    obtain e1 bs1 st1 where r1: "reresolve_loop t p bs st = (e1, bs1, st1)"
      by (cases "reresolve_loop t p bs st") auto
    from reresolve_loop_skip[OF True r1] Cons.prems kb
    have "e = e1" "bs' = (k, b) # bs1" "st' = st1" by simp_all
    with Skip[OF True r1 Cons.IH[OF r1]] kb show ?thesis by simp
  next
    case False
    then have ap: "actual_path b = p" by simp
    show ?thesis
    proof (cases "resolve_line t (sb_line (alb_source_breakpoint b))")
      case (Inl err)
      from reresolve_loop_raise[OF ap Inl] Cons.prems kb
      have "e = Some err" "bs' = (k, b) # bs" "st' = st" by simp_all
      with Raise[OF ap Inl] kb show ?thesis by simp
    next
      case (Inr r)
      show ?thesis
      proof (cases "differs (alb_breakpoint b) r")
        case True
        let ?st = "send st (Some (BreakpointEvent ''changed'' (resolved_bp b r)))"
        obtain e1 bs1 st1 where r1: "reresolve_loop t p bs ?st = (e1, bs1, st1)"
          by (cases "reresolve_loop t p bs ?st") auto
        from reresolve_loop_changed[OF ap Inr True r1] Cons.prems kb
        have "e = e1" "bs' = (k, b\<lparr>alb_breakpoint := resolved_bp b r\<rparr>) # bs1" "st' = st1" by simp_all
        with Changed[OF ap Inr True r1 Cons.IH[OF r1]] kb show ?thesis by simp
      next
        case F: False
        obtain e1 bs1 st1 where r1: "reresolve_loop t p bs st = (e1, bs1, st1)"
          by (cases "reresolve_loop t p bs st") auto
        from reresolve_loop_same[OF ap Inr F r1] Cons.prems kb
        have "e = e1" "bs' = (k, b) # bs1" "st' = st1" by simp_all
        with Same[OF ap Inr F r1 Cons.IH[OF r1]] kb show ?thesis by simp
      qed
    qed
  qed
qed

lemma reresolve_loop_frame:
  "reresolve_loop t p bs st = (e, bs', st') \<Longrightarrow>
     breakpoints st' = breakpoints st \<and> breakpoint_counter st' = breakpoint_counter st
   \<and> source_info st' = source_info st \<and> send_queue_active st' = send_queue_active st
   \<and> debug_config st' = debug_config st"
  by (induction rule: reresolve_loop_induct) simp_all

lemma reresolve_loop_keys:
  "reresolve_loop t p bs st = (e, bs', st') \<Longrightarrow>
     map fst bs' = map fst bs \<and> map (source_path \<circ> snd) bs' = map (source_path \<circ> snd) bs"
  by (induction rule: reresolve_loop_induct) simp_all

lemma reresolve_loop_ids:
  "reresolve_loop t p bs st = (e, bs', st') \<Longrightarrow>
   \<forall>(k, b) \<in> set bs. k < c \<and> alb_id b = k \<and> bp_id (alb_breakpoint b) = Some k \<Longrightarrow>
   \<forall>(k, b) \<in> set bs'. k < c \<and> alb_id b = k \<and> bp_id (alb_breakpoint b) = Some k"
  by (induction rule: reresolve_loop_induct) (auto simp: resolved_bp_def split: prod.splits)

subsection \<open>The loop of the set-breakpoints handler, case by case\<close>

lemma dict_setitem_fresh: "k \<notin> fst ` set d \<Longrightarrow> dict_setitem d k v = d @ [(k, v)]"
  by (induction d) auto

lemma sbl_Nil: "set_breakpoints_loop src modified tbl a sp [] info st = (None, info, st)"
  by simp

lemma sbl_modified:
  "set_breakpoints_loop src True tbl a sp (sb # sbs) info st =
   set_breakpoints_loop src True tbl a sp sbs (info @ [modified_bp src (breakpoint_counter st)])
      (st\<lparr>breakpoint_counter := breakpoint_counter st + 1\<rparr>)"
  by (simp add: Let_def modified_bp_def)

lemma sbl_not_loaded:
  "tbl = None \<or> tbl = Some [] \<Longrightarrow>
   set_breakpoints_loop src False tbl a sp (sb # sbs) info st =
   set_breakpoints_loop src False tbl a sp sbs
      (info @ [not_loaded_bp src (breakpoint_counter st) (sb_line sb)])
      (st\<lparr>breakpoint_counter := breakpoint_counter st + 1,
          breakpoints := dict_setitem (breakpoints st) (breakpoint_counter st)
             (stored (breakpoint_counter st) src sb
                 (not_loaded_bp src (breakpoint_counter st) (sb_line sb)) a sp)\<rparr>)"
  by (auto simp add: Let_def not_loaded_bp_def stored_def)

lemma sbl_raise:
  "tbl = Some t \<Longrightarrow> t \<noteq> [] \<Longrightarrow> resolve_line t (sb_line sb) = Inl err \<Longrightarrow>
   set_breakpoints_loop src False tbl a sp (sb # sbs) info st =
     (Some err, info, st\<lparr>breakpoint_counter := breakpoint_counter st + 1\<rparr>)"
  by (simp add: Let_def)

lemma sbl_located:
  "tbl = Some t \<Longrightarrow> t \<noteq> [] \<Longrightarrow> resolve_line t (sb_line sb) = Inr r \<Longrightarrow>
   set_breakpoints_loop src False tbl a sp (sb # sbs) info st =
   set_breakpoints_loop src False tbl a sp sbs
      (info @ [located_bp src (breakpoint_counter st) r])
      (st\<lparr>breakpoint_counter := breakpoint_counter st + 1,
          breakpoints := dict_setitem (breakpoints st) (breakpoint_counter st)
             (stored (breakpoint_counter st) src sb
                 (located_bp src (breakpoint_counter st) r) a sp)\<rparr>)"
  by (cases r) (simp add: Let_def located_bp_def stored_def)

text \<open>One turn of the loop either raises or reports one entry (and stores it, unless the source is modified).\<close>

lemma sbl_step:
  "(\<exists>err. set_breakpoints_loop src modified tbl a sp (sb # sbs) info st =
       (Some err, info, st\<lparr>breakpoint_counter := breakpoint_counter st + 1\<rparr>)
       \<and> \<not> modified \<and> (\<exists>t. tbl = Some t \<and> t \<noteq> [] \<and> resolve_line t (sb_line sb) = Inl err))
   \<or> (\<exists>bp. set_breakpoints_loop src modified tbl a sp (sb # sbs) info st =
        set_breakpoints_loop src modified tbl a sp sbs (info @ [bp])
          (st\<lparr>breakpoint_counter := breakpoint_counter st + 1,
              breakpoints := (if modified then breakpoints st
                 else dict_setitem (breakpoints st) (breakpoint_counter st)
                        (stored (breakpoint_counter st) src sb bp a sp))\<rparr>)
        \<and> bp_id bp = Some (breakpoint_counter st)
        \<and> (modified \<longrightarrow> bp = modified_bp src (breakpoint_counter st))
        \<and> (\<not> modified \<and> (tbl = None \<or> tbl = Some []) \<longrightarrow>
               bp = not_loaded_bp src (breakpoint_counter st) (sb_line sb))
        \<and> (\<not> modified \<and> tbl \<noteq> None \<and> tbl \<noteq> Some [] \<longrightarrow>
               (\<exists>r. resolve_line (the tbl) (sb_line sb) = Inr r
                    \<and> bp = located_bp src (breakpoint_counter st) r)))"
proof (cases modified)
  case True
  then show ?thesis using sbl_modified[of src tbl a sp sb sbs info st]
    by (auto simp: modified_bp_def)
next
  case False
  show ?thesis
  proof (cases "tbl = None \<or> tbl = Some []")
    case True
    then show ?thesis using sbl_not_loaded[OF True, of src a sp sb sbs info st] False
      by (auto simp: not_loaded_bp_def)
  next
    case F2: False
    then obtain t where t: "tbl = Some t" "t \<noteq> []" by auto
    show ?thesis
    proof (cases "resolve_line t (sb_line sb)")
      case (Inl err)
      then show ?thesis using sbl_raise[OF t Inl, of src a sp sbs info st] False t by auto
    next
      case (Inr r)
      then show ?thesis using sbl_located[OF t Inr, of src a sp sbs info st] False t
        by (cases r) (auto simp: located_bp_def)
    qed
  qed
qed


lemma sbl_frame:
  assumes "\<forall>(k, b) \<in> set (breakpoints st). k < breakpoint_counter st"
    and "set_breakpoints_loop src modified tbl a sp sbs info st = (e, info', st')"
  shows "\<exists>new. breakpoints st' = breakpoints st @ new
          \<and> (\<forall>(k, b) \<in> set new. breakpoint_counter st \<le> k \<and> k < breakpoint_counter st'
                \<and> (\<exists>sb bp. sb \<in> set sbs \<and> b = stored k src sb bp a sp \<and> bp_id bp = Some k
                     \<and> (tbl = None \<or> tbl = Some [] \<longrightarrow> bp = not_loaded_bp src k (sb_line sb))))
          \<and> (modified \<longrightarrow> new = [])
          \<and> breakpoint_counter st \<le> breakpoint_counter st'
          \<and> source_info st' = source_info st \<and> send_queue st' = send_queue st
          \<and> send_queue_active st' = send_queue_active st \<and> debug_config st' = debug_config st"
  using assms
proof (induction sbs arbitrary: info st)
  case Nil
  then show ?case by simp
next
  case (Cons sb sbs)
  let ?c = "breakpoint_counter st"
  from sbl_step[of src modified tbl a sp sb sbs info st]
  show ?case
  proof (elim disjE exE conjE)
    fix err
    assume "set_breakpoints_loop src modified tbl a sp (sb # sbs) info st =
       (Some err, info, st\<lparr>breakpoint_counter := ?c + 1\<rparr>)"
    with Cons.prems(2) have "st' = st\<lparr>breakpoint_counter := ?c + 1\<rparr>" by simp
    moreover assume "\<not> modified"
    ultimately show ?thesis by (intro exI[of _ "[]"]) simp
  next
    fix bp
    let ?bs1 = "if modified then breakpoints st
                 else dict_setitem (breakpoints st) ?c (stored ?c src sb bp a sp)"
    let ?st1 = "st\<lparr>breakpoint_counter := ?c + 1, breakpoints := ?bs1\<rparr>"
    assume eq: "set_breakpoints_loop src modified tbl a sp (sb # sbs) info st =
        set_breakpoints_loop src modified tbl a sp sbs (info @ [bp]) ?st1"
      and id: "bp_id bp = Some ?c"
      and nl: "\<not> modified \<and> (tbl = None \<or> tbl = Some []) \<longrightarrow> bp = not_loaded_bp src ?c (sb_line sb)"
    have fresh: "?c \<notin> fst ` set (breakpoints st)" using Cons.prems(1) by force
    have bs1: "?bs1 = breakpoints st @ (if modified then [] else [(?c, stored ?c src sb bp a sp)])"
      using fresh by (simp add: dict_setitem_fresh)
    have pre1: "\<forall>(k, b) \<in> set (breakpoints ?st1). k < breakpoint_counter ?st1"
      using Cons.prems(1) bs1 by (auto split: if_splits)
    from eq Cons.prems(2)
    have run1: "set_breakpoints_loop src modified tbl a sp sbs (info @ [bp]) ?st1 = (e, info', st')"
      by simp
    from Cons.IH[OF pre1 run1] obtain new where
      n: "breakpoints st' = breakpoints ?st1 @ new"
         "\<forall>(k, b) \<in> set new. breakpoint_counter ?st1 \<le> k \<and> k < breakpoint_counter st'
                \<and> (\<exists>sb bp. sb \<in> set sbs \<and> b = stored k src sb bp a sp \<and> bp_id bp = Some k
                     \<and> (tbl = None \<or> tbl = Some [] \<longrightarrow> bp = not_loaded_bp src k (sb_line sb)))"
         "modified \<longrightarrow> new = []"
         "breakpoint_counter ?st1 \<le> breakpoint_counter st'"
         "source_info st' = source_info ?st1" "send_queue st' = send_queue ?st1"
         "send_queue_active st' = send_queue_active ?st1" "debug_config st' = debug_config ?st1"
      by blast
    let ?new = "(if modified then [] else [(?c, stored ?c src sb bp a sp)]) @ new"
    have "breakpoints st' = breakpoints st @ ?new" using n(1) bs1 by simp
    moreover have "\<forall>(k, b) \<in> set ?new. ?c \<le> k \<and> k < breakpoint_counter st'
                \<and> (\<exists>sb' bp. sb' \<in> set (sb # sbs) \<and> b = stored k src sb' bp a sp \<and> bp_id bp = Some k
                     \<and> (tbl = None \<or> tbl = Some [] \<longrightarrow> bp = not_loaded_bp src k (sb_line sb')))"
    proof (clarify)
      fix k b assume kb: "(k, b) \<in> set ?new"
      show "?c \<le> k \<and> k < breakpoint_counter st'
                \<and> (\<exists>sb' bp. sb' \<in> set (sb # sbs) \<and> b = stored k src sb' bp a sp \<and> bp_id bp = Some k
                     \<and> (tbl = None \<or> tbl = Some [] \<longrightarrow> bp = not_loaded_bp src k (sb_line sb')))"
      proof (cases "(k, b) \<in> set new")
        case True
        with n(2) show ?thesis by fastforce
      next
        case False
        with kb have "\<not> modified" "k = ?c" "b = stored ?c src sb bp a sp"
          by (auto split: if_splits)
        then show ?thesis using id nl n(4) by auto
      qed
    qed
    moreover have "modified \<longrightarrow> ?new = []" using n(3) by simp
    ultimately show ?thesis using n(4-8)
      by (intro exI[of _ ?new]) simp
  qed
qed

lemma sbl_modified_eq:
  "set_breakpoints_loop src True tbl a sp sbs info st =
     (None, info @ map (\<lambda>i. modified_bp src (breakpoint_counter st + int i)) [0..<length sbs],
      st\<lparr>breakpoint_counter := breakpoint_counter st + int (length sbs)\<rparr>)"
proof (induction sbs arbitrary: info st)
  case Nil
  then show ?case by simp
next
  case (Cons sb sbs)
  have "map (\<lambda>i. modified_bp src (breakpoint_counter st + int i)) [0..<length (sb # sbs)]
      = modified_bp src (breakpoint_counter st)
        # map (\<lambda>i. modified_bp src (breakpoint_counter st + 1 + int i)) [0..<length sbs]"
    by (simp add: map_upt_Suc del: upt_Suc) (simp add: add.commute add.left_commute)
  then show ?case
    by (simp only: sbl_modified Cons.IH) (simp add: add.commute add.left_commute)
qed

lemma process_message_frame:
  assumes "\<forall>(k, b) \<in> set (breakpoints st). k < breakpoint_counter st"
    and "process_message st msg = (e, st')"
  shows "\<exists>new. breakpoints st' =
            filter (\<lambda>(k, b). source_path b \<noteq> client_path msg) (breakpoints st) @ new
          \<and> (\<forall>(k, b) \<in> set new. breakpoint_counter st \<le> k \<and> k < breakpoint_counter st'
                \<and> (\<exists>sb bp. sb \<in> set (req_breakpoints msg)
                     \<and> b = stored k (req_source msg) sb bp
                            (convert_to_actual_path (debug_config st) (client_path msg))
                            (client_path msg)
                     \<and> bp_id bp = Some k
                     \<and> (source_info st (convert_to_actual_path (debug_config st) (client_path msg)) = None
                          \<longrightarrow> bp = not_loaded_bp (req_source msg) k (sb_line sb))))
          \<and> (req_source_modified msg \<longrightarrow> new = [])
          \<and> breakpoint_counter st \<le> breakpoint_counter st'
          \<and> source_info st' = source_info st
          \<and> send_queue_active st' = send_queue_active st \<and> debug_config st' = debug_config st"
proof -
  let ?sp = "client_path msg"
  let ?a = "convert_to_actual_path (debug_config st) ?sp"
  let ?st1 = "st\<lparr>breakpoints := filter (\<lambda>(bpid, b). source_path b \<noteq> ?sp) (breakpoints st)\<rparr>"
  obtain e1 info1 st2 where run: "set_breakpoints_loop (req_source msg) (req_source_modified msg)
       (source_info st ?a) ?a ?sp (req_breakpoints msg) [] ?st1 = (e1, info1, st2)"
    by (cases "set_breakpoints_loop (req_source msg) (req_source_modified msg)
       (source_info st ?a) ?a ?sp (req_breakpoints msg) [] ?st1") auto
  have pre: "\<forall>(k, b) \<in> set (breakpoints ?st1). k < breakpoint_counter ?st1"
    using assms(1) by auto
  have st': "st' = st2 \<or> st' = send st2 (Some (SetBreakpointsResponse (req_seq msg) info1))"
    using assms(2) run by (cases e1) (auto simp: process_message_def client_path_def Let_def)
  from sbl_frame[OF pre run] obtain new where
    n: "breakpoints st2 = breakpoints ?st1 @ new"
       "\<forall>(k, b) \<in> set new. breakpoint_counter ?st1 \<le> k \<and> k < breakpoint_counter st2
                \<and> (\<exists>sb bp. sb \<in> set (req_breakpoints msg) \<and> b = stored k (req_source msg) sb bp ?a ?sp
                     \<and> bp_id bp = Some k
                     \<and> (source_info st ?a = None \<or> source_info st ?a = Some []
                          \<longrightarrow> bp = not_loaded_bp (req_source msg) k (sb_line sb)))"
       "req_source_modified msg \<longrightarrow> new = []"
       "breakpoint_counter ?st1 \<le> breakpoint_counter st2"
       "source_info st2 = source_info ?st1" "send_queue st2 = send_queue ?st1"
       "send_queue_active st2 = send_queue_active ?st1" "debug_config st2 = debug_config ?st1"
    by blast
  have "\<forall>(k, b) \<in> set new. breakpoint_counter st \<le> k \<and> k < breakpoint_counter st'
                \<and> (\<exists>sb bp. sb \<in> set (req_breakpoints msg) \<and> b = stored k (req_source msg) sb bp ?a ?sp
                     \<and> bp_id bp = Some k
                     \<and> (source_info st ?a = None
                          \<longrightarrow> bp = not_loaded_bp (req_source msg) k (sb_line sb)))"
    using n(2) st' by fastforce
  then show ?thesis using n(1,3-8) st'
    by (intro exI[of _ new]) auto
qed

subsection \<open>Invariants of every reachable debugger\<close>

lemma register_cases [consumes 1, case_names Raise Loop]:
  assumes "register_path_breakpoint st p line k = (e, st')"
  obtains err where "py_setitem (extended st p line) line (Some k) = Inl err"
      "e = Some err" "st' = st\<lparr>source_info := (source_info st)(p \<mapsto> extended st p line)\<rparr>"
  | t2 bs' st2 where "py_setitem (extended st p line) line (Some k) = Inr t2"
      "reresolve_loop t2 p (breakpoints st) (st\<lparr>source_info := (source_info st)(p \<mapsto> t2)\<rparr>)
         = (e, bs', st2)"
      "st' = st2\<lparr>breakpoints := bs'\<rparr>"
proof (cases "py_setitem (extended st p line) line (Some k)")
  case (Inl err)
  with assms that(1) show ?thesis
    by (simp add: register_path_breakpoint_def extended_def Let_def)
next
  case (Inr t2)
  let ?st1 = "st\<lparr>source_info := (source_info st)(p \<mapsto> t2)\<rparr>"
  obtain e1 bs' st2 where run: "reresolve_loop t2 p (breakpoints st) ?st1 = (e1, bs', st2)"
    by (cases "reresolve_loop t2 p (breakpoints st) ?st1") auto
  with assms Inr have "e = e1" "st' = st2\<lparr>breakpoints := bs'\<rparr>"
    by (simp_all add: register_path_breakpoint_def extended_def Let_def)
  with that(2)[OF Inr] run show ?thesis by simp
qed

lemma register_source_info:
  assumes "register_path_breakpoint st p line k = (e, st')"
  shows "source_info st' = (source_info st)(p \<mapsto>
           (case py_setitem (extended st p line) line (Some k) of
              Inl err \<Rightarrow> extended st p line | Inr t2 \<Rightarrow> t2))"
  using assms
proof (cases rule: register_cases)
  case (Raise err)
  then show ?thesis by simp
next
  case (Loop t2 bs' st2)
  then show ?thesis using reresolve_loop_frame[OF Loop(2)] by simp
qed

lemma register_frame:
  assumes "register_path_breakpoint st p line k = (e, st')"
  shows "breakpoint_counter st' = breakpoint_counter st \<and> send_queue_active st' = send_queue_active st
   \<and> debug_config st' = debug_config st
   \<and> map fst (breakpoints st') = map fst (breakpoints st)
   \<and> map (source_path \<circ> snd) (breakpoints st') = map (source_path \<circ> snd) (breakpoints st)"
  using assms
proof (cases rule: register_cases)
  case (Raise err)
  then show ?thesis by simp
next
  case (Loop t2 bs' st2)
  then show ?thesis using reresolve_loop_frame[OF Loop(2)] reresolve_loop_keys[OF Loop(2)] by simp
qed

lemma register_ids_ok:
  assumes "register_path_breakpoint st p line k = (e, st')" "ids_ok st"
  shows "ids_ok st'"
  using assms(1)
proof (cases rule: register_cases)
  case (Raise err)
  then show ?thesis using assms(2) by (simp add: ids_ok_def)
next
  case (Loop t2 bs' st2)
  from reresolve_loop_ids[OF Loop(2), of "breakpoint_counter st"] assms(2)
  have "\<forall>(k, b) \<in> set bs'. k < breakpoint_counter st \<and> alb_id b = k \<and> bp_id (alb_breakpoint b) = Some k"
    by (simp add: ids_ok_def)
  moreover have "breakpoint_counter st2 = breakpoint_counter st"
    using reresolve_loop_frame[OF Loop(2)] by simp
  ultimately show ?thesis using Loop(3) by (simp add: ids_ok_def)
qed

lemma wf_table_write:
  assumes "wf_table t0"
  shows "wf_table (case py_setitem (t0 @ replicate n None) line (Some k) of
                     Inl err \<Rightarrow> t0 @ replicate n None | Inr t2 \<Rightarrow> t2)"
proof -
  have t0: "t0 \<noteq> []" "t0 ! 0 \<noteq> None" using assms by (simp_all add: wf_table_def)
  then have a: "(t0 @ replicate n None) ! 0 \<noteq> None" by (simp add: nth_append)
  show ?thesis
  proof (cases "py_setitem (t0 @ replicate n None) line (Some k)")
    case (Inl err)
    then show ?thesis using t0 a by (simp add: wf_table_def)
  next
    case (Inr t2)
    then obtain j where "t2 = (t0 @ replicate n None)[j := Some k]"
      by (auto simp: py_setitem_def Let_def split: if_splits)
    then show ?thesis using Inr t0 a by (cases j) (auto simp: wf_table_def nth_list_update)
  qed
qed

lemma register_tables_ok:
  assumes "register_path_breakpoint st p line k = (e, st')" "tables_ok st"
  shows "tables_ok st'"
proof -
  let ?t0 = "case source_info st p of None \<Rightarrow> [Some 0] | Some t \<Rightarrow> t"
  have "wf_table ?t0" using assms(2) by (auto simp: tables_ok_def wf_table_def split: option.splits)
  from wf_table_write[OF this, of "nat (1 + line - int (length ?t0))" line k]
  have wf: "wf_table (case py_setitem (extended st p line) line (Some k) of
                        Inl err \<Rightarrow> extended st p line | Inr t2 \<Rightarrow> t2)"
    unfolding extended_def Let_def .
  show ?thesis
    unfolding tables_ok_def register_source_info[OF assms(1)]
    using wf assms(2) by (auto simp: tables_ok_def)
qed

lemma process_message_ids_ok:
  assumes "process_message st msg = (e, st')" "ids_ok st"
  shows "ids_ok st'"
proof -
  have pre: "\<forall>(k, b) \<in> set (breakpoints st). k < breakpoint_counter st"
    using assms(2) by (auto simp: ids_ok_def)
  from process_message_frame[OF pre assms(1)] obtain new where
    n: "breakpoints st' = filter (\<lambda>(k, b). source_path b \<noteq> client_path msg) (breakpoints st) @ new"
       "\<forall>(k, b) \<in> set new. breakpoint_counter st \<le> k \<and> k < breakpoint_counter st'
                \<and> (\<exists>sb bp. sb \<in> set (req_breakpoints msg)
                     \<and> b = stored k (req_source msg) sb bp
                            (convert_to_actual_path (debug_config st) (client_path msg))
                            (client_path msg)
                     \<and> bp_id bp = Some k
                     \<and> (source_info st (convert_to_actual_path (debug_config st) (client_path msg)) = None
                          \<longrightarrow> bp = not_loaded_bp (req_source msg) k (sb_line sb)))"
       "breakpoint_counter st \<le> breakpoint_counter st'"
    by blast
  show ?thesis unfolding ids_ok_def n(1)
  proof (clarify)
    fix k b assume "(k, b) \<in> set (filter (\<lambda>(k, b). source_path b \<noteq> client_path msg) (breakpoints st) @ new)"
    then consider "(k, b) \<in> set (breakpoints st)" | "(k, b) \<in> set new" by auto
    then show "k < breakpoint_counter st' \<and> alb_id b = k \<and> bp_id (alb_breakpoint b) = Some k"
    proof cases
      case 1
      with assms(2) n(3) show ?thesis by (fastforce simp: ids_ok_def)
    next
      case 2
      with n(2) show ?thesis by (fastforce simp: stored_def)
    qed
  qed
qed

lemma step_invariants:
  assumes "step st st'" "tables_ok st \<and> ids_ok st"
  shows "tables_ok st' \<and> ids_ok st'"
  using assms(1)
proof (cases rule: step.cases)
  case (register p line bp_type e)
  then show ?thesis using assms(2) register_tables_ok register_ids_ok by blast
next
  case (set_breakpoints msg e)
  have pre: "\<forall>(k, b) \<in> set (breakpoints st). k < breakpoint_counter st"
    using assms(2) by (auto simp: ids_ok_def)
  from process_message_frame[OF pre set_breakpoints] have "source_info st' = source_info st" by blast
  then show ?thesis using assms(2) process_message_ids_ok[OF set_breakpoints] by (simp add: tables_ok_def)
qed (use assms(2) in \<open>auto simp: tables_ok_def ids_ok_def\<close>)

lemma evolves_invariants:
  "evolves st st' \<Longrightarrow> tables_ok st \<and> ids_ok st \<Longrightarrow> tables_ok st' \<and> ids_ok st'"
  by (induction rule: evolves.induct) (auto dest: step_invariants)

lemma reachable_invariants: "reachable st \<Longrightarrow> tables_ok st \<and> ids_ok st"
  unfolding reachable_def
  by (erule evolves_invariants) (simp add: tables_ok_def ids_ok_def init_def)

lemma reachable_init: "reachable init"
  by (simp add: reachable_def evolves_refl)

lemma reachable_step: "reachable st \<Longrightarrow> step st st' \<Longrightarrow> reachable st'"
  unfolding reachable_def by (rule evolves_step)

lemma reachable_register: "reachable st \<Longrightarrow> reachable (snd (register_path_breakpoint st p line k))"
  by (erule reachable_step) (rule step.register[of st p line k "fst (register_path_breakpoint st p line k)"], simp)

lemma reachable_process_message: "reachable st \<Longrightarrow> reachable (snd (process_message st msg))"
  by (erule reachable_step) (rule step.set_breakpoints[of st msg "fst (process_message st msg)"], simp)

lemma reachable_attached: "reachable attached"
  unfolding attached_def by (rule reachable_step[OF reachable_init]) (rule step.connection_made)

lemma reachable_pending: "reachable pending"
  unfolding pending_def by (rule reachable_process_message[OF reachable_attached])

lemma reachable_detached: "reachable detached"
  unfolding detached_def by (rule reachable_step[OF reachable_pending]) (rule step.task_end)

lemma reachable_table_0_3_5: "reachable table_0_3_5"
  unfolding table_0_3_5_def by (intro reachable_register reachable_attached)

subsection \<open>The pause decision\<close>

lemma first_match_None: "first_match bs p line = None \<longleftrightarrow> (\<forall>(k, b) \<in> set bs. \<not> bp_matches b p line)"
proof (induction bs)
  case Nil
  then show ?case by simp
next
  case (Cons kb bs)
  obtain k b0 where kb: "kb = (k, b0)" by (cases kb)
  show ?case using Cons.IH unfolding kb by (cases "bp_matches b0 p line") auto
qed

lemma first_match_Some:
  "first_match bs p line = Some b \<longleftrightarrow>
     (\<exists>i < length bs. snd (bs ! i) = b \<and> bp_matches b p line
        \<and> (\<forall>j < i. \<not> bp_matches (snd (bs ! j)) p line))"
proof (induction bs)
  case Nil
  then show ?case by simp
next
  case (Cons kb bs)
  obtain k b0 where kb: "kb = (k, b0)" by (cases kb)
  show ?case
  proof (cases "bp_matches b0 p line")
    case True
    have "(\<exists>i < length (kb # bs). snd ((kb # bs) ! i) = b \<and> bp_matches b p line
        \<and> (\<forall>j < i. \<not> bp_matches (snd ((kb # bs) ! j)) p line)) \<longleftrightarrow> b0 = b"
    proof
      assume "\<exists>i < length (kb # bs). snd ((kb # bs) ! i) = b \<and> bp_matches b p line
        \<and> (\<forall>j < i. \<not> bp_matches (snd ((kb # bs) ! j)) p line)"
      then obtain i where i: "i < length (kb # bs)" "snd ((kb # bs) ! i) = b"
        "\<forall>j < i. \<not> bp_matches (snd ((kb # bs) ! j)) p line" by blast
      have "i = 0"
      proof (rule ccontr)
        assume "i \<noteq> 0"
        then have "0 < i" by simp
        with i(3) have "\<not> bp_matches (snd ((kb # bs) ! 0)) p line" by blast
        with True kb show False by simp
      qed
      with i(2) kb show "b0 = b" by simp
    next
      assume "b0 = b"
      with True kb show "\<exists>i < length (kb # bs). snd ((kb # bs) ! i) = b \<and> bp_matches b p line
        \<and> (\<forall>j < i. \<not> bp_matches (snd ((kb # bs) ! j)) p line)"
        by (intro exI[of _ 0]) simp
    qed
    with True kb show ?thesis by simp
  next
    case False
    have "(\<exists>i < length (kb # bs). snd ((kb # bs) ! i) = b \<and> bp_matches b p line
        \<and> (\<forall>j < i. \<not> bp_matches (snd ((kb # bs) ! j)) p line))
      \<longleftrightarrow> (\<exists>i < length bs. snd (bs ! i) = b \<and> bp_matches b p line
        \<and> (\<forall>j < i. \<not> bp_matches (snd (bs ! j)) p line))" (is "?L \<longleftrightarrow> ?R")
    proof
      assume ?L
      then obtain i where i: "i < length (kb # bs)" "snd ((kb # bs) ! i) = b" "bp_matches b p line"
        "\<forall>j < i. \<not> bp_matches (snd ((kb # bs) ! j)) p line" by blast
      with False kb have "i \<noteq> 0" by (cases i) auto
      then obtain i' where i': "i = Suc i'" by (cases i) auto
      have "\<forall>j < i'. \<not> bp_matches (snd (bs ! j)) p line"
      proof (intro allI impI)
        fix j assume "j < i'"
        then have "Suc j < i" using i' by simp
        with i(4) have "\<not> bp_matches (snd ((kb # bs) ! Suc j)) p line" by blast
        then show "\<not> bp_matches (snd (bs ! j)) p line" by simp
      qed
      with i i' show ?R by (intro exI[of _ i']) simp
    next
      assume ?R
      then obtain i where i: "i < length bs" "snd (bs ! i) = b" "bp_matches b p line"
        "\<forall>j < i. \<not> bp_matches (snd (bs ! j)) p line" by blast
      have "\<forall>j < Suc i. \<not> bp_matches (snd ((kb # bs) ! j)) p line"
      proof (intro allI impI)
        fix j assume "j < Suc i"
        then show "\<not> bp_matches (snd ((kb # bs) ! j)) p line"
          using False kb i(4) by (cases j) auto
      qed
      with i show ?L by (intro exI[of _ "Suc i"]) simp
    qed
    with False kb Cons.IH show ?thesis by simp
  qed
qed

text \<open>
  Claim C7. \<^verbatim>\<open>get_breakpoint(path, line)\<close> returns nothing while the send queue is
  not active, whatever is stored. While it is active it returns nothing exactly when
  no stored breakpoint matches, and it returns \<open>b\<close> exactly when \<open>b\<close> is the first
  stored breakpoint, in the order of the dict, whose \<^verbatim>\<open>actual_path\<close> is the path and
  whose range from \<^verbatim>\<open>line\<close> to \<^verbatim>\<open>end_line\<close> (both inclusive, an absent bound
  being no bound) holds the line.
\<close>

theorem C7_get_breakpoint_gated_first_match:
  "(\<not> send_queue_active st \<longrightarrow> get_breakpoint st p line = None)
   \<and> (send_queue_active st \<longrightarrow>
        (get_breakpoint st p line = None
           \<longleftrightarrow> (\<forall>(k, b) \<in> set (breakpoints st). \<not> bp_matches b p line))
      \<and> (\<forall>b. get_breakpoint st p line = Some b \<longleftrightarrow>
           (\<exists>i < length (breakpoints st). snd (breakpoints st ! i) = b
              \<and> actual_path b = p
              \<and> (case bp_line (alb_breakpoint b) of None \<Rightarrow> True | Some l \<Rightarrow> l \<le> line)
              \<and> (case bp_end_line (alb_breakpoint b) of None \<Rightarrow> True | Some l \<Rightarrow> line \<le> l)
              \<and> (\<forall>j < i. \<not> bp_matches (snd (breakpoints st ! j)) p line))))"
  using first_match_None[of "breakpoints st" p line] first_match_Some[of "breakpoints st" p line]
  by (auto simp: get_breakpoint_def bp_matches_def)

theorem C7_get_breakpoint_witness:
  "\<not> send_queue_active detached
   \<and> bp_matches (snd (breakpoints detached ! 0)) ''main.yml'' 7
   \<and> get_breakpoint detached ''main.yml'' 7 = None
   \<and> send_queue_active pending
   \<and> get_breakpoint pending ''main.yml'' 7 = Some (snd (breakpoints pending ! 0))"
proof -
  have off: "\<not> send_queue_active detached" by code_simp
  have m: "bp_matches (snd (breakpoints detached ! 0)) ''main.yml'' 7" by code_simp
  from C7_get_breakpoint_gated_first_match[of detached "''main.yml''" 7] off
  have none: "get_breakpoint detached ''main.yml'' 7 = None" by blast
  have on: "send_queue_active pending" by code_simp
  have len: "0 < length (breakpoints pending)" by code_simp
  have m0: "actual_path (snd (breakpoints pending ! 0)) = ''main.yml''
      \<and> (case bp_line (alb_breakpoint (snd (breakpoints pending ! 0))) of
            None \<Rightarrow> True | Some l \<Rightarrow> l \<le> 7)
      \<and> (case bp_end_line (alb_breakpoint (snd (breakpoints pending ! 0))) of
            None \<Rightarrow> True | Some l \<Rightarrow> 7 \<le> l)" by code_simp
  from C7_get_breakpoint_gated_first_match[of pending "''main.yml''" 7] on
  have "get_breakpoint pending ''main.yml'' 7 = Some (snd (breakpoints pending ! 0)) \<longleftrightarrow>
           (\<exists>i < length (breakpoints pending).
              snd (breakpoints pending ! i) = snd (breakpoints pending ! 0)
              \<and> actual_path (snd (breakpoints pending ! 0)) = ''main.yml''
              \<and> (case bp_line (alb_breakpoint (snd (breakpoints pending ! 0))) of
                    None \<Rightarrow> True | Some l \<Rightarrow> l \<le> 7)
              \<and> (case bp_end_line (alb_breakpoint (snd (breakpoints pending ! 0))) of
                    None \<Rightarrow> True | Some l \<Rightarrow> 7 \<le> l)
              \<and> (\<forall>j < i. \<not> bp_matches (snd (breakpoints pending ! j)) ''main.yml'' 7))"
    by blast
  moreover have "\<exists>i < length (breakpoints pending).
              snd (breakpoints pending ! i) = snd (breakpoints pending ! 0)
              \<and> actual_path (snd (breakpoints pending ! 0)) = ''main.yml''
              \<and> (case bp_line (alb_breakpoint (snd (breakpoints pending ! 0))) of
                    None \<Rightarrow> True | Some l \<Rightarrow> l \<le> 7)
              \<and> (case bp_end_line (alb_breakpoint (snd (breakpoints pending ! 0))) of
                    None \<Rightarrow> True | Some l \<Rightarrow> 7 \<le> l)
              \<and> (\<forall>j < i. \<not> bp_matches (snd (breakpoints pending ! j)) ''main.yml'' 7)"
    using len m0 by (intro exI[of _ 0]) simp
  ultimately have "get_breakpoint pending ''main.yml'' 7 = Some (snd (breakpoints pending ! 0))"
    by blast
  with off m none on show ?thesis by blast
qed

subsection \<open>The backward scan\<close>

text \<open>
  Claim C8. In every table of a reachable debugger (a table is created as \<^verbatim>\<open>[0]\<close> and
  a registration only ever writes an integer), for every requested line of at least 1,
  the backward scan started at \<^verbatim>\<open>min(line, len(t) - 1)\<close> returns without raising:
  it stops at an index from 0 up to its start that holds an integer, every slot it
  stepped over being a continuation, and slot 0 is never a continuation.
\<close>

theorem C8_backward_scan_reaches_slot:
  assumes "reachable st" "source_info st p = Some t" "1 \<le> line"
  shows "\<exists>s lt. scan_start t (min line (int (length t) - 1)) = Inr (s, lt)
           \<and> 0 \<le> s \<and> s \<le> min line (int (length t) - 1)
           \<and> t ! nat s = Some lt \<and> t ! 0 \<noteq> None
           \<and> (\<forall>j. s < j \<and> j \<le> min line (int (length t) - 1) \<longrightarrow> t ! nat j = None)"
proof -
  from reachable_invariants[OF assms(1)] assms(2) have wf: "wf_table t"
    by (auto simp: tables_ok_def)
  then have "0 \<le> min line (int (length t) - 1)" "min line (int (length t) - 1) < int (length t)"
    using assms(3) by (auto simp: wf_table_def min_def)
  from scan_start_wf[OF wf this] wf show ?thesis by (auto simp: wf_table_def)
qed

theorem C8_backward_scan_witness:
  "reachable table_0_3_5
   \<and> source_info table_0_3_5 ''main.yml'' = Some [Some 0, None, None, Some 1, None, Some 0]
   \<and> (1::int) \<le> 4
   \<and> (\<exists>s lt. scan_start [Some 0, None, None, Some 1, None, Some 0] 4 = Inr (s, lt)
          \<and> 0 \<le> s \<and> s \<le> 4
          \<and> [Some 0, None, None, Some 1, None, Some 0] ! nat s = Some lt)"
proof -
  let ?t = "[Some 0, None, None, Some 1, None, Some (0::int)]"
  have tbl: "source_info table_0_3_5 ''main.yml'' = Some ?t" by code_simp
  have l: "(1::int) \<le> 4" by simp
  from C8_backward_scan_reaches_slot[OF reachable_table_0_3_5 tbl l]
  obtain s lt where h: "scan_start ?t (min 4 (int (length ?t) - 1)) = Inr (s, lt)"
    "0 \<le> s" "s \<le> min 4 (int (length ?t) - 1)" "?t ! nat s = Some lt"
    by (elim exE conjE)
  have "scan_start ?t 4 = Inr (s, lt)" "s \<le> 4" using h(1,3) by simp_all
  with h(2,4) have "\<exists>s lt. scan_start ?t 4 = Inr (s, lt) \<and> 0 \<le> s \<and> s \<le> 4 \<and> ?t ! nat s = Some lt"
    by blast
  with reachable_table_0_3_5 tbl show ?thesis by simp
qed

lemma reachable_two_files: "reachable two_files"
  unfolding two_files_def by (rule reachable_process_message[OF reachable_pending])

subsection \<open>Registering a line\<close>

lemma length_extended:
  "0 \<le> line \<Longrightarrow> nat line < length (extended st p line)"
  by (auto simp: extended_def Let_def split: option.splits)

lemma py_setitem_nonneg:
  "0 \<le> i \<Longrightarrow> i < int (length xs) \<Longrightarrow> py_setitem xs i v = Inr (xs[nat i := v])"
  by (simp add: py_setitem_def)

lemma register_table_nonneg:
  assumes "register_path_breakpoint st p line k = (e, st')" "0 \<le> line"
  shows "source_info st' = (source_info st)(p \<mapsto> (extended st p line)[nat line := Some k])"
proof -
  have "line < int (length (extended st p line))"
    using length_extended[OF assms(2), of st p] assms(2) by linarith
  then have "py_setitem (extended st p line) line (Some k) = Inr ((extended st p line)[nat line := Some k])"
    using assms(2) by (simp add: py_setitem_nonneg)
  with register_source_info[OF assms(1)] show ?thesis by simp
qed

text \<open>
  Claim C2. In a reachable debugger, a call \<^verbatim>\<open>register_path_breakpoint(path, line, kind)\<close>
  with \<open>line \<ge> 1\<close> and \<open>kind\<close> 0 or 1 leaves a table for the path whose slot
  \<open>line\<close> holds \<open>kind\<close> and whose slot 0 is not a continuation. A table made by this
  call has slot 0 invalid and only continuations between slot 0 and slot \<open>line\<close>. A table
  that was there keeps slot 0, does not get shorter, has continuations in the slots the
  call added below \<open>line\<close>, and keeps every old slot but slot \<open>line\<close>. The tables of
  other paths stay as they were. All of this holds whether or not the loop over the
  breakpoints, which runs after the write, raises.
\<close>

theorem C2_register_writes_line:
  assumes "reachable st" and "1 \<le> line" and "k = 0 \<or> k = 1"
    and "register_path_breakpoint st p line k = (e, st')"
  shows "\<exists>t'. source_info st' p = Some t'
           \<and> nat line < length t' \<and> t' ! nat line = Some k
           \<and> t' ! 0 \<noteq> None
           \<and> (source_info st p = None \<longrightarrow>
                 t' ! 0 = Some 0 \<and> length t' = nat line + 1
                 \<and> (\<forall>i. 1 \<le> i \<and> i < nat line \<longrightarrow> t' ! i = None))
           \<and> (\<forall>t. source_info st p = Some t \<longrightarrow>
                 t' ! 0 = t ! 0 \<and> length t \<le> length t'
                 \<and> (\<forall>i. length t \<le> i \<and> i < nat line \<longrightarrow> t' ! i = None)
                 \<and> (\<forall>i < length t. i \<noteq> nat line \<longrightarrow> t' ! i = t ! i))
           \<and> (\<forall>q. q \<noteq> p \<longrightarrow> source_info st' q = source_info st q)"
proof -
  let ?x = "extended st p line"
  let ?t' = "?x[nat line := Some k]"
  have l0: "0 \<le> line" using assms(2) by simp
  have si: "source_info st' = (source_info st)(p \<mapsto> ?t')"
    by (rule register_table_nonneg[OF assms(4) l0])
  have len: "nat line < length ?x" by (rule length_extended[OF l0])
  have n0: "nat line \<noteq> 0" using assms(2) by simp
  have a: "source_info st' p = Some ?t'" using si by simp
  have b: "nat line < length ?t'" "?t' ! nat line = Some k" using len by simp_all
  have fresh: "source_info st p = None \<longrightarrow>
                 ?t' ! 0 = Some 0 \<and> length ?t' = nat line + 1
                 \<and> (\<forall>i. 1 \<le> i \<and> i < nat line \<longrightarrow> ?t' ! i = None)"
  proof
    assume none: "source_info st p = None"
    then have x: "?x = Some 0 # replicate (nat line) None"
      using assms(2) by (simp add: extended_def)
    have "?t' ! 0 = ?x ! 0" by (rule nth_list_update_neq) (rule n0)
    then have "?t' ! 0 = Some 0" by (simp add: x)
    moreover have "length ?x = nat line + 1" by (simp add: x)
    then have "length ?t' = nat line + 1" by simp
    moreover have "\<forall>i. 1 \<le> i \<and> i < nat line \<longrightarrow> ?t' ! i = None"
    proof (intro allI impI)
      fix i assume i: "1 \<le> i \<and> i < nat line"
      then obtain j where j: "i = Suc j" by (cases i) auto
      have "nat line \<noteq> i" using i by simp
      then have "?t' ! i = ?x ! i" by (rule nth_list_update_neq)
      also have "\<dots> = None" using i j by (simp add: x)
      finally show "?t' ! i = None" .
    qed
    ultimately show "?t' ! 0 = Some 0 \<and> length ?t' = nat line + 1
                 \<and> (\<forall>i. 1 \<le> i \<and> i < nat line \<longrightarrow> ?t' ! i = None)" by blast
  qed
  have old: "\<forall>t. source_info st p = Some t \<longrightarrow>
                 ?t' ! 0 = t ! 0 \<and> length t \<le> length ?t'
                 \<and> (\<forall>i. length t \<le> i \<and> i < nat line \<longrightarrow> ?t' ! i = None)
                 \<and> (\<forall>i < length t. i \<noteq> nat line \<longrightarrow> ?t' ! i = t ! i)"
  proof (intro allI impI)
    fix t assume some: "source_info st p = Some t"
    from reachable_invariants[OF assms(1)] some have wf: "wf_table t" by (auto simp: tables_ok_def)
    have x: "?x = t @ replicate (nat (1 + line - int (length t))) None"
      using some by (simp add: extended_def)
    have "?t' ! 0 = ?x ! 0" by (rule nth_list_update_neq) (rule n0)
    then have "?t' ! 0 = t ! 0" using wf by (simp add: x nth_append wf_table_def)
    moreover have "length t \<le> length ?x" by (simp add: x)
    then have "length t \<le> length ?t'" by simp
    moreover have "\<forall>i. length t \<le> i \<and> i < nat line \<longrightarrow> ?t' ! i = None"
    proof (intro allI impI)
      fix i assume i: "length t \<le> i \<and> i < nat line"
      then have d: "i - length t < nat (1 + line - int (length t))" by linarith
      have "nat line \<noteq> i" using i by simp
      then have "?t' ! i = ?x ! i" by (rule nth_list_update_neq)
      also have "\<dots> = None" using i d by (simp add: x nth_append)
      finally show "?t' ! i = None" .
    qed
    moreover have "\<forall>i < length t. i \<noteq> nat line \<longrightarrow> ?t' ! i = t ! i"
    proof (intro allI impI)
      fix i assume i: "i < length t" and ne: "i \<noteq> nat line"
      from ne have "nat line \<noteq> i" by simp
      then have "?t' ! i = ?x ! i" by (rule nth_list_update_neq)
      also have "\<dots> = t ! i" using i by (simp add: x nth_append)
      finally show "?t' ! i = t ! i" .
    qed
    ultimately show "?t' ! 0 = t ! 0 \<and> length t \<le> length ?t'
                 \<and> (\<forall>i. length t \<le> i \<and> i < nat line \<longrightarrow> ?t' ! i = None)
                 \<and> (\<forall>i < length t. i \<noteq> nat line \<longrightarrow> ?t' ! i = t ! i)" by blast
  qed
  have nz: "?t' ! 0 \<noteq> None"
  proof (cases "source_info st p")
    case None
    with fresh show ?thesis by simp
  next
    case (Some t)
    from reachable_invariants[OF assms(1)] Some have "t ! 0 \<noteq> None" by (auto simp: tables_ok_def wf_table_def)
    with old Some show ?thesis by simp
  qed
  have other: "\<forall>q. q \<noteq> p \<longrightarrow> source_info st' q = source_info st q" using si by simp
  show ?thesis
    apply (rule exI[of _ ?t'])
    using a b nz fresh old other apply (intro conjI)
          apply assumption+
    done
qed

theorem C2_register_witness:
  "reachable table_0_3_5 \<and> (1::int) \<le> 7 \<and> ((1::int) = 0 \<or> (1::int) = 1)
   \<and> (\<exists>t'. source_info (snd (register_path_breakpoint table_0_3_5 ''main.yml'' 7 1)) ''main.yml''
             = Some t'
          \<and> nat 7 < length t' \<and> t' ! nat 7 = Some 1 \<and> t' ! 0 \<noteq> None)
   \<and> source_info (snd (register_path_breakpoint table_0_3_5 ''main.yml'' 7 1)) ''main.yml''
        = Some [Some 0, None, None, Some 1, None, Some 0, None, Some 1]"
proof -
  have l: "(1::int) \<le> 7" and k: "(1::int) = 0 \<or> (1::int) = 1" by simp_all
  have run: "register_path_breakpoint table_0_3_5 ''main.yml'' 7 1 =
      (fst (register_path_breakpoint table_0_3_5 ''main.yml'' 7 1),
       snd (register_path_breakpoint table_0_3_5 ''main.yml'' 7 1))" by simp
  from C2_register_writes_line[OF reachable_table_0_3_5 l k run]
  have "\<exists>t'. source_info (snd (register_path_breakpoint table_0_3_5 ''main.yml'' 7 1)) ''main.yml''
             = Some t'
          \<and> nat 7 < length t' \<and> t' ! nat 7 = Some 1 \<and> t' ! 0 \<noteq> None"
    by (elim exE conjE) (intro exI conjI, assumption+)
  moreover have "source_info (snd (register_path_breakpoint table_0_3_5 ''main.yml'' 7 1)) ''main.yml''
        = Some [Some 0, None, None, Some 1, None, Some 0, None, Some 1]" by code_simp
  ultimately show ?thesis using reachable_table_0_3_5 l k by blast
qed

subsection \<open>Setting breakpoints\<close>

text \<open>
  Claim C4. In a reachable debugger, after a set-breakpoints request for the client path
  \<open>P\<close> (whether it returns or raises) the registry holds, first and in their old order,
  exactly the old entries whose \<^verbatim>\<open>source_path\<close> is not \<open>P\<close>, each with its old key
  and its old value; every entry after them carries an id allocated by this request, at
  or above the old counter, while every old id is below it. So the old entries of \<open>P\<close> are
  gone and no other old entry is touched.
\<close>

theorem C4_set_breakpoints_replaces_own_path_only:
  assumes "reachable st" and "process_message st msg = (e, st')"
  shows "\<exists>new. breakpoints st' =
            filter (\<lambda>(k, b). source_path b \<noteq> client_path msg) (breakpoints st) @ new
          \<and> (\<forall>(k, b) \<in> set new. breakpoint_counter st \<le> k)
          \<and> (\<forall>(k, b) \<in> set (breakpoints st). k < breakpoint_counter st)"
proof -
  have pre: "\<forall>(k, b) \<in> set (breakpoints st). k < breakpoint_counter st"
    using reachable_invariants[OF assms(1)] by (auto simp: ids_ok_def)
  from process_message_frame[OF pre assms(2)] obtain new where
    n: "breakpoints st' = filter (\<lambda>(k, b). source_path b \<noteq> client_path msg) (breakpoints st) @ new"
       "\<forall>(k, b) \<in> set new. breakpoint_counter st \<le> k \<and> k < breakpoint_counter st'
                \<and> (\<exists>sb bp. sb \<in> set (req_breakpoints msg)
                     \<and> b = stored k (req_source msg) sb bp
                            (convert_to_actual_path (debug_config st) (client_path msg))
                            (client_path msg)
                     \<and> bp_id bp = Some k
                     \<and> (source_info st (convert_to_actual_path (debug_config st) (client_path msg)) = None
                          \<longrightarrow> bp = not_loaded_bp (req_source msg) k (sb_line sb)))"
    by blast
  from n(2) have "\<forall>(k, b) \<in> set new. breakpoint_counter st \<le> k" by fastforce
  with n(1) pre show ?thesis by blast
qed


theorem C4_set_breakpoints_witness:
  "reachable two_files
   \<and> map fst (breakpoints two_files) = [1, 2, 3]
   \<and> map (source_path \<circ> snd) (breakpoints two_files) = [''main.yml'', ''main.yml'', ''tasks.yml'']
   \<and> (\<exists>new. breakpoints (snd (process_message two_files (request ''main.yml'' False [7]))) =
            filter (\<lambda>(k, b). source_path b \<noteq> client_path (request ''main.yml'' False [7]))
               (breakpoints two_files) @ new)
   \<and> map fst (breakpoints (snd (process_message two_files (request ''main.yml'' False [7])))) = [3, 4]
   \<and> breakpoints (snd (process_message two_files (request ''main.yml'' False [7]))) ! 0
        = breakpoints two_files ! 2"
proof -
  let ?msg = "request ''main.yml'' False [7]"
  have run: "process_message two_files ?msg =
      (fst (process_message two_files ?msg), snd (process_message two_files ?msg))" by simp
  from C4_set_breakpoints_replaces_own_path_only[OF reachable_two_files run]
  have "\<exists>new. breakpoints (snd (process_message two_files ?msg)) =
            filter (\<lambda>(k, b). source_path b \<noteq> client_path ?msg) (breakpoints two_files) @ new"
    by (elim exE conjE) (intro exI, assumption)
  moreover have "map fst (breakpoints two_files) = [1, 2, 3]" by code_simp
  moreover have "map (source_path \<circ> snd) (breakpoints two_files)
        = [''main.yml'', ''main.yml'', ''tasks.yml'']" by code_simp
  moreover have "map fst (breakpoints (snd (process_message two_files ?msg))) = [3, 4]" by code_simp
  moreover have "breakpoints (snd (process_message two_files ?msg)) ! 0 = breakpoints two_files ! 2"
    by code_simp
  ultimately show ?thesis using reachable_two_files by blast
qed

lemma process_message_modified:
  assumes "req_source_modified msg"
  shows "process_message st msg =
     (None, send (st\<lparr>breakpoints := filter (\<lambda>(k, b). source_path b \<noteq> client_path msg) (breakpoints st),
                      breakpoint_counter := breakpoint_counter st + int (length (req_breakpoints msg))\<rparr>)
              (Some (SetBreakpointsResponse (req_seq msg)
                 (map (\<lambda>i. modified_bp (req_source msg) (breakpoint_counter st + int i))
                    [0..<length (req_breakpoints msg)]))))"
  using assms by (simp add: process_message_def client_path_def Let_def sbl_modified_eq)

lemma first_match_stored: "first_match bs p line = Some b \<Longrightarrow> \<exists>k. (k, b) \<in> set bs"
proof (induction bs)
  case Nil
  then show ?case by simp
next
  case (Cons kb bs)
  obtain k b0 where kb: "kb = (k, b0)" by (cases kb)
  show ?case
  proof (cases "bp_matches b0 p line")
    case True
    with Cons.prems kb have "b = b0" by simp
    with kb show ?thesis by auto
  next
    case False
    with Cons.prems kb have "first_match bs p line = Some b" by simp
    from Cons.IH[OF this] show ?thesis by auto
  qed
qed

lemma get_breakpoint_stored:
  "get_breakpoint st p line = Some b \<Longrightarrow> \<exists>k. (k, b) \<in> set (breakpoints st)"
  by (auto simp: get_breakpoint_def split: if_splits dest: first_match_stored)

text \<open>Ids in a range that the counter has passed and that no entry uses stay unused.\<close>

lemma step_ids_unused:
  assumes "step st st'"
    and "ids_ok st" and "hi \<le> breakpoint_counter st"
    and "\<forall>(k, b) \<in> set (breakpoints st). k < lo \<or> hi \<le> k"
  shows "ids_ok st' \<and> hi \<le> breakpoint_counter st'
       \<and> (\<forall>(k, b) \<in> set (breakpoints st'). k < lo \<or> hi \<le> k)"
  using assms(1)
proof (cases rule: step.cases)
  case (register p line bp_type e)
  from register_frame[OF register] have c: "breakpoint_counter st' = breakpoint_counter st"
    and ks: "map fst (breakpoints st') = map fst (breakpoints st)" by simp_all
  from ks have "fst ` set (breakpoints st') = fst ` set (breakpoints st)"
    by (metis set_map)
  then have "\<forall>(k, b) \<in> set (breakpoints st'). k < lo \<or> hi \<le> k"
    using assms(4) by force
  with c assms(3) register_ids_ok[OF register assms(2)] show ?thesis by simp
next
  case (set_breakpoints msg e)
  have pre: "\<forall>(k, b) \<in> set (breakpoints st). k < breakpoint_counter st"
    using assms(2) by (auto simp: ids_ok_def)
  from process_message_frame[OF pre set_breakpoints] obtain new where
    n: "breakpoints st' = filter (\<lambda>(k, b). source_path b \<noteq> client_path msg) (breakpoints st) @ new"
       "\<forall>(k, b) \<in> set new. breakpoint_counter st \<le> k \<and> k < breakpoint_counter st'
                \<and> (\<exists>sb bp. sb \<in> set (req_breakpoints msg)
                     \<and> b = stored k (req_source msg) sb bp
                            (convert_to_actual_path (debug_config st) (client_path msg))
                            (client_path msg)
                     \<and> bp_id bp = Some k
                     \<and> (source_info st (convert_to_actual_path (debug_config st) (client_path msg)) = None
                          \<longrightarrow> bp = not_loaded_bp (req_source msg) k (sb_line sb)))"
       "breakpoint_counter st \<le> breakpoint_counter st'"
    by blast
  have "\<forall>(k, b) \<in> set (breakpoints st'). k < lo \<or> hi \<le> k"
  proof (clarify)
    fix k b assume kb: "(k, b) \<in> set (breakpoints st')" and "\<not> hi \<le> k"
    from kb n(1) consider "(k, b) \<in> set (breakpoints st)" | "(k, b) \<in> set new" by auto
    then show "k < lo"
    proof cases
      case 1
      with assms(4) \<open>\<not> hi \<le> k\<close> show ?thesis by auto
    next
      case 2
      with n(2) have "breakpoint_counter st \<le> k" by auto
      with assms(3) \<open>\<not> hi \<le> k\<close> show ?thesis by simp
    qed
  qed
  with n(3) assms(3) process_message_ids_ok[OF set_breakpoints assms(2)] show ?thesis by simp
qed (use assms(2,3,4) in \<open>auto simp: ids_ok_def\<close>)

lemma evolves_ids_unused:
  assumes "evolves st st'"
    and "ids_ok st" and "hi \<le> breakpoint_counter st"
    and "\<forall>(k, b) \<in> set (breakpoints st). k < lo \<or> hi \<le> k"
  shows "ids_ok st' \<and> hi \<le> breakpoint_counter st'
       \<and> (\<forall>(k, b) \<in> set (breakpoints st'). k < lo \<or> hi \<le> k)"
  using assms
proof (induction rule: evolves.induct)
  case (evolves_refl st)
  then show ?case by simp
next
  case (evolves_step st st1 st2)
  from evolves_step.IH[OF evolves_step.prems] step_ids_unused[OF evolves_step.hyps(2)]
  show ?case by blast
qed

text \<open>
  Claim C6. For a set-breakpoints request whose source-modified flag is set, in a
  reachable debugger: the handler returns without raising; the response it hands to
  \<^verbatim>\<open>send\<close> has one entry per requested line, in order, each unverified with the
  message \<^verbatim>\<open>Cannot set breakpoint on a modified source.\<close> and the next fresh id; the
  counter moves past those ids; the registry is the old one without the entries of
  this client path, so none of the new entries is stored. Whatever the debugger does
  afterwards, a breakpoint that \<^verbatim>\<open>get_breakpoint\<close> returns never carries one of those ids.
\<close>

theorem C6_modified_source_never_stored:
  assumes "reachable st" and "req_source_modified msg"
  shows "process_message st msg =
     (None, send (st\<lparr>breakpoints := filter (\<lambda>(k, b). source_path b \<noteq> client_path msg) (breakpoints st),
                      breakpoint_counter := breakpoint_counter st + int (length (req_breakpoints msg))\<rparr>)
              (Some (SetBreakpointsResponse (req_seq msg)
                 (map (\<lambda>i. \<lparr> bp_id = Some (breakpoint_counter st + int i), bp_verified = False,
                             bp_message = Some ''Cannot set breakpoint on a modified source.'',
                             bp_source = Some (req_source msg), bp_line = None, bp_end_line = None \<rparr>)
                    [0..<length (req_breakpoints msg)]))))
   \<and> (\<forall>st'' p line b.
         evolves (snd (process_message st msg)) st'' \<and> get_breakpoint st'' p line = Some b \<longrightarrow>
           (alb_id b < breakpoint_counter st
              \<or> breakpoint_counter st + int (length (req_breakpoints msg)) \<le> alb_id b)
           \<and> bp_id (alb_breakpoint b) = Some (alb_id b)
           \<and> (\<forall>i < length (req_breakpoints msg).
                 bp_id (alb_breakpoint b) \<noteq> Some (breakpoint_counter st + int i)))"
proof -
  let ?c = "breakpoint_counter st"
  let ?n = "length (req_breakpoints msg)"
  let ?st1 = "st\<lparr>breakpoints := filter (\<lambda>(k, b). source_path b \<noteq> client_path msg) (breakpoints st),
                  breakpoint_counter := ?c + int ?n\<rparr>"
  let ?resp = "Some (SetBreakpointsResponse (req_seq msg)
                 (map (\<lambda>i. modified_bp (req_source msg) (?c + int i)) [0..<?n]))"
  have run: "process_message st msg = (None, send ?st1 ?resp)"
    by (rule process_message_modified[OF assms(2)])
  have ok: "ids_ok st" using reachable_invariants[OF assms(1)] by simp
  have ok1: "ids_ok (send ?st1 ?resp)"
    using ok by (fastforce simp: ids_ok_def)
  have hi: "?c + int ?n \<le> breakpoint_counter (send ?st1 ?resp)" by simp
  have un: "\<forall>(k, b) \<in> set (breakpoints (send ?st1 ?resp)). k < ?c \<or> ?c + int ?n \<le> k"
    using ok by (fastforce simp: ids_ok_def)
  have later: "\<forall>st'' p line b.
         evolves (snd (process_message st msg)) st'' \<and> get_breakpoint st'' p line = Some b \<longrightarrow>
           (alb_id b < ?c \<or> ?c + int ?n \<le> alb_id b)
           \<and> bp_id (alb_breakpoint b) = Some (alb_id b)
           \<and> (\<forall>i < ?n. bp_id (alb_breakpoint b) \<noteq> Some (?c + int i))"
  proof (intro allI impI)
    fix st'' p line b
    assume h: "evolves (snd (process_message st msg)) st'' \<and> get_breakpoint st'' p line = Some b"
    then have ev: "evolves (send ?st1 ?resp) st''" using run by simp
    from evolves_ids_unused[OF ev ok1 hi un]
    have i2: "ids_ok st''" "\<forall>(k, b) \<in> set (breakpoints st''). k < ?c \<or> ?c + int ?n \<le> k"
      by simp_all
    from h get_breakpoint_stored obtain k where k: "(k, b) \<in> set (breakpoints st'')" by blast
    from i2(1) k have id: "alb_id b = k" "bp_id (alb_breakpoint b) = Some k"
      by (auto simp: ids_ok_def)
    from i2(2) k have rng: "k < ?c \<or> ?c + int ?n \<le> k" by auto
    have "\<forall>i < ?n. bp_id (alb_breakpoint b) \<noteq> Some (?c + int i)"
      using id(2) rng by auto
    with id rng show "(alb_id b < ?c \<or> ?c + int ?n \<le> alb_id b)
           \<and> bp_id (alb_breakpoint b) = Some (alb_id b)
           \<and> (\<forall>i < ?n. bp_id (alb_breakpoint b) \<noteq> Some (?c + int i))" by simp
  qed
  from run have "process_message st msg =
     (None, send ?st1
              (Some (SetBreakpointsResponse (req_seq msg)
                 (map (\<lambda>i. \<lparr> bp_id = Some (?c + int i), bp_verified = False,
                             bp_message = Some ''Cannot set breakpoint on a modified source.'',
                             bp_source = Some (req_source msg), bp_line = None, bp_end_line = None \<rparr>)
                    [0..<?n]))))"
    by (simp add: modified_bp_def)
  with later show ?thesis by blast
qed

theorem C6_modified_source_witness:
  "reachable two_files
   \<and> req_source_modified (request ''main.yml'' True [3, 5])
   \<and> fst (process_message two_files (request ''main.yml'' True [3, 5])) = None
   \<and> map (bp_id \<circ> alb_breakpoint \<circ> snd)
        (breakpoints (snd (process_message two_files (request ''main.yml'' True [3, 5])))) = [Some 3]
   \<and> last (send_queue (snd (process_message two_files (request ''main.yml'' True [3, 5])))) =
        Some (SetBreakpointsResponse 1
          [\<lparr> bp_id = Some 4, bp_verified = False,
              bp_message = Some ''Cannot set breakpoint on a modified source.'',
              bp_source = Some \<lparr> src_path = Some ''main.yml'' \<rparr>,
              bp_line = None, bp_end_line = None \<rparr>,
           \<lparr> bp_id = Some 5, bp_verified = False,
              bp_message = Some ''Cannot set breakpoint on a modified source.'',
              bp_source = Some \<lparr> src_path = Some ''main.yml'' \<rparr>,
              bp_line = None, bp_end_line = None \<rparr>])
   \<and> evolves (snd (process_message two_files (request ''main.yml'' True [3, 5])))
              (snd (process_message two_files (request ''main.yml'' True [3, 5])))
   \<and> get_breakpoint (snd (process_message two_files (request ''main.yml'' True [3, 5])))
        ''tasks.yml'' 2 = Some (snd (breakpoints two_files ! 2))
   \<and> bp_id (alb_breakpoint (snd (breakpoints two_files ! 2)))
        = Some (alb_id (snd (breakpoints two_files ! 2)))"
proof -
  let ?msg = "request ''main.yml'' True [3, 5]"
  let ?st' = "snd (process_message two_files ?msg)"
  let ?b = "snd (breakpoints two_files ! 2)"
  have m: "req_source_modified ?msg" by (simp add: request_def)
  note inst = C6_modified_source_never_stored[OF reachable_two_files m]
  from inst have ret: "fst (process_message two_files ?msg) = None" by simp
  have ev: "evolves ?st' ?st'" by (rule evolves_refl)
  have gb: "get_breakpoint ?st' ''tasks.yml'' 2 = Some ?b" by code_simp
  from inst ev gb have id: "bp_id (alb_breakpoint ?b) = Some (alb_id ?b)" by blast
  have ids: "map (bp_id \<circ> alb_breakpoint \<circ> snd) (breakpoints ?st') = [Some 3]" by code_simp
  have resp: "last (send_queue ?st') =
        Some (SetBreakpointsResponse 1
          [\<lparr> bp_id = Some 4, bp_verified = False,
              bp_message = Some ''Cannot set breakpoint on a modified source.'',
              bp_source = Some \<lparr> src_path = Some ''main.yml'' \<rparr>,
              bp_line = None, bp_end_line = None \<rparr>,
           \<lparr> bp_id = Some 5, bp_verified = False,
              bp_message = Some ''Cannot set breakpoint on a modified source.'',
              bp_source = Some \<lparr> src_path = Some ''main.yml'' \<rparr>,
              bp_line = None, bp_end_line = None \<rparr>])" by code_simp
  from reachable_two_files m ret ids resp ev gb id show ?thesis by blast
qed

subsection \<open>Path mappings, there and back\<close>

text \<open>
  Claim C5, as stated, fails: with two mappings that share the remote root \<^verbatim>\<open>/x\<close>, the
  client path \<^verbatim>\<open>/b/f\<close> is rewritten by the second mapping to \<^verbatim>\<open>/x/f\<close>, and
  \<^verbatim>\<open>convert_to_client_path\<close> turns that into \<^verbatim>\<open>/a/f\<close> with the first mapping.
\<close>

theorem C5_round_trip_counterexample:
  "startswith ''/b/f'' (local_root (clashing_mappings ! 1))
   \<and> convert_to_actual_path clashing_mappings ''/b/f'' = ''/x/f''
   \<and> convert_to_client_path clashing_mappings ''/x/f'' = ''/a/f''
   \<and> convert_to_client_path clashing_mappings (convert_to_actual_path clashing_mappings ''/b/f'')
        \<noteq> ''/b/f''"
  by (simp add: clashing_mappings_def startswith_def)

lemma convert_to_actual_path_first:
  "\<forall>m' \<in> set pre. \<not> startswith c (local_root m') \<Longrightarrow> startswith c (local_root m) \<Longrightarrow>
   convert_to_actual_path (pre @ m # post) c = remote_root m @ drop (length (local_root m)) c"
  by (induction pre) simp_all

lemma convert_to_client_path_first:
  "\<forall>m' \<in> set pre. \<not> startswith r (remote_root m') \<Longrightarrow> startswith r (remote_root m) \<Longrightarrow>
   convert_to_client_path (pre @ m # post) r = local_root m @ drop (length (remote_root m)) r"
  by (induction pre) simp_all

lemma convert_to_actual_path_no_match:
  "\<forall>m \<in> set ms. \<not> startswith c (local_root m) \<Longrightarrow> convert_to_actual_path ms c = c"
  by (induction ms) simp_all

text \<open>
  Claim C5, amended. A client path that starts with no \<^verbatim>\<open>local_root\<close> is passed
  through unchanged. A client path rewritten by the mapping \<open>m\<close> (the first whose
  \<^verbatim>\<open>local_root\<close> it starts with) is given back unchanged by \<^verbatim>\<open>convert_to_client_path\<close>
  provided that no mapping listed before \<open>m\<close> has a \<^verbatim>\<open>remote_root\<close> that the rewritten
  path starts with; so always when \<open>m\<close> is the first mapping of the list.
\<close>

theorem C5_path_round_trip:
  "((\<forall>m \<in> set ms. \<not> startswith c (local_root m)) \<longrightarrow> convert_to_actual_path ms c = c)
   \<and> (\<forall>pre m post.
         ms = pre @ m # post
         \<and> (\<forall>m' \<in> set pre. \<not> startswith c (local_root m'))
         \<and> startswith c (local_root m)
         \<and> (\<forall>m' \<in> set pre.
               \<not> startswith (remote_root m @ drop (length (local_root m)) c) (remote_root m'))
         \<longrightarrow> convert_to_actual_path ms c = remote_root m @ drop (length (local_root m)) c
             \<and> convert_to_client_path ms (convert_to_actual_path ms c) = c)"
proof (intro conjI allI impI)
  assume "\<forall>m \<in> set ms. \<not> startswith c (local_root m)"
  then show "convert_to_actual_path ms c = c" by (rule convert_to_actual_path_no_match)
next
  fix pre m post
  assume h: "ms = pre @ m # post
         \<and> (\<forall>m' \<in> set pre. \<not> startswith c (local_root m'))
         \<and> startswith c (local_root m)
         \<and> (\<forall>m' \<in> set pre.
               \<not> startswith (remote_root m @ drop (length (local_root m)) c) (remote_root m'))"
  let ?r = "remote_root m @ drop (length (local_root m)) c"
  from h have fwd: "convert_to_actual_path ms c = ?r"
    by (simp add: convert_to_actual_path_first)
  have sw: "startswith ?r (remote_root m)" by (simp add: startswith_def)
  from h sw have "convert_to_client_path ms ?r = local_root m @ drop (length (remote_root m)) ?r"
    by (simp add: convert_to_client_path_first)
  also have "\<dots> = local_root m @ drop (length (local_root m)) c" by simp
  also have "\<dots> = c"
  proof -
    from h have "take (length (local_root m)) c = local_root m" by (simp add: startswith_def)
    then have "local_root m @ drop (length (local_root m)) c
                 = take (length (local_root m)) c @ drop (length (local_root m)) c" by simp
    then show ?thesis by simp
  qed
  finally have rt: "convert_to_client_path ms ?r = c" .
  from fwd show "convert_to_actual_path ms c = ?r" .
  from fwd rt show "convert_to_client_path ms (convert_to_actual_path ms c) = c" by simp
qed

theorem C5_path_round_trip_witness:
  "\<not> (\<exists>m \<in> set distinct_mappings. startswith ''/tmp/site.yml'' (local_root m))
   \<and> convert_to_actual_path distinct_mappings ''/tmp/site.yml'' = ''/tmp/site.yml''
   \<and> distinct_mappings = [distinct_mappings ! 0] @ (distinct_mappings ! 1) # []
   \<and> startswith ''/opt/roles/web/main.yml'' (local_root (distinct_mappings ! 1))
   \<and> convert_to_actual_path distinct_mappings ''/opt/roles/web/main.yml'' = ''/etc/roles/web/main.yml''
   \<and> convert_to_client_path distinct_mappings
        (convert_to_actual_path distinct_mappings ''/opt/roles/web/main.yml'')
        = ''/opt/roles/web/main.yml''"
proof -
  let ?c = "''/opt/roles/web/main.yml''"
  let ?m = "distinct_mappings ! 1"
  have nm: "\<forall>m \<in> set distinct_mappings. \<not> startswith ''/tmp/site.yml'' (local_root m)"
    by (simp add: distinct_mappings_def startswith_def)
  from C5_path_round_trip[of distinct_mappings "''/tmp/site.yml''"] nm
  have a: "convert_to_actual_path distinct_mappings ''/tmp/site.yml'' = ''/tmp/site.yml''" by blast
  have shape: "distinct_mappings = [distinct_mappings ! 0] @ ?m # []"
    by (simp add: distinct_mappings_def)
  have p1: "\<forall>m' \<in> set [distinct_mappings ! 0]. \<not> startswith ?c (local_root m')"
    by (simp add: distinct_mappings_def startswith_def)
  have p2: "startswith ?c (local_root ?m)"
    by (simp add: distinct_mappings_def startswith_def)
  have p3: "\<forall>m' \<in> set [distinct_mappings ! 0].
               \<not> startswith (remote_root ?m @ drop (length (local_root ?m)) ?c) (remote_root m')"
    by (simp add: distinct_mappings_def startswith_def)
  from C5_path_round_trip[of distinct_mappings ?c] shape p1 p2 p3
  have b: "convert_to_actual_path distinct_mappings ?c = remote_root ?m @ drop (length (local_root ?m)) ?c
         \<and> convert_to_client_path distinct_mappings (convert_to_actual_path distinct_mappings ?c) = ?c"
    by blast
  have c: "remote_root ?m @ drop (length (local_root ?m)) ?c = ''/etc/roles/web/main.yml''"
    by (simp add: distinct_mappings_def)
  from b c have b1: "convert_to_actual_path distinct_mappings ?c = ''/etc/roles/web/main.yml''"
    by simp
  from b have b2: "convert_to_client_path distinct_mappings
        (convert_to_actual_path distinct_mappings ?c) = ?c" by blast
  from nm have nm': "\<not> (\<exists>m \<in> set distinct_mappings. startswith ''/tmp/site.yml'' (local_root m))"
    by blast
  from nm' a shape p2 b1 b2 show ?thesis by blast
qed

subsection \<open>Breakpoints stored without an end line\<close>

text \<open>
  Claim C10, as stated, fails for a breakpoint that is not the first match: with two
  breakpoints stored for a file without a table, on lines 3 and 5, a query for line 7
  returns the one of line 3, not the one of line 5, though the latter has no end line
  and its line is below 7.
\<close>

theorem C10_first_match_counterexample:
  "send_queue_active pending
   \<and> actual_path (snd (breakpoints pending ! 1)) = ''main.yml''
   \<and> sb_line (alb_source_breakpoint (snd (breakpoints pending ! 1))) = 5
   \<and> bp_line (alb_breakpoint (snd (breakpoints pending ! 1))) = Some 5
   \<and> bp_end_line (alb_breakpoint (snd (breakpoints pending ! 1))) = None
   \<and> get_breakpoint pending ''main.yml'' 7 = Some (snd (breakpoints pending ! 0))
   \<and> get_breakpoint pending ''main.yml'' 7 \<noteq> Some (snd (breakpoints pending ! 1))"
  by code_simp

lemma sbl_not_loaded_returns:
  "tbl = None \<Longrightarrow> fst (set_breakpoints_loop src False tbl a sp sbs info st) = None"
proof (induction sbs arbitrary: info st)
  case Nil
  then show ?case by simp
next
  case (Cons sb sbs)
  from Cons.prems have "tbl = None \<or> tbl = Some []" by simp
  from sbl_not_loaded[OF this] Cons.IH[OF Cons.prems] show ?case by simp
qed

lemma process_message_not_loaded_returns:
  assumes "source_info st (convert_to_actual_path (debug_config st) (client_path msg)) = None"
    and "\<not> req_source_modified msg"
  shows "fst (process_message st msg) = None"
proof -
  let ?a = "convert_to_actual_path (debug_config st) (client_path msg)"
  let ?st1 = "st\<lparr>breakpoints := filter (\<lambda>(bpid, b). source_path b \<noteq> client_path msg) (breakpoints st)\<rparr>"
  obtain e1 info1 st2 where run: "set_breakpoints_loop (req_source msg) (req_source_modified msg)
       (source_info st ?a) ?a (client_path msg) (req_breakpoints msg) [] ?st1 = (e1, info1, st2)"
    by (cases "set_breakpoints_loop (req_source msg) (req_source_modified msg)
       (source_info st ?a) ?a (client_path msg) (req_breakpoints msg) [] ?st1") auto
  from sbl_not_loaded_returns[OF assms(1), of "req_source msg" ?a "client_path msg" "req_breakpoints msg" "[]" ?st1]
    run assms(2) have "e1 = None" by simp
  with run show ?thesis by (simp add: process_message_def client_path_def Let_def)
qed

text \<open>
  Claim C10, amended. While the send queue is active: for a stored breakpoint on the
  queried path with no end line, whose line is absent or at most the queried line,
  \<^verbatim>\<open>get_breakpoint\<close> returns a breakpoint stored at or before it, and returns this very
  breakpoint when no breakpoint stored before it matches the query; the verified flag
  is not looked at. Such breakpoints are what a set-breakpoints request stores when the
  file has no table and the source is not modified: the request returns, and each entry
  it stores is unverified, has the requested line as its line, and no end line.
\<close>

theorem C10_absent_end_line_is_no_bound:
  "(\<forall>i b. send_queue_active st \<and> i < length (breakpoints st) \<and> b = snd (breakpoints st ! i)
        \<and> actual_path b = p
        \<and> bp_end_line (alb_breakpoint b) = None
        \<and> (bp_line (alb_breakpoint b) = None \<or> (\<exists>l. bp_line (alb_breakpoint b) = Some l \<and> l \<le> line))
      \<longrightarrow> (\<exists>j \<le> i. get_breakpoint st p line = Some (snd (breakpoints st ! j)))
          \<and> ((\<forall>j < i. \<not> bp_matches (snd (breakpoints st ! j)) p line)
                \<longrightarrow> get_breakpoint st p line = Some b))
   \<and> (\<forall>msg. reachable st
        \<and> source_info st (convert_to_actual_path (debug_config st) (client_path msg)) = None
        \<and> \<not> req_source_modified msg
      \<longrightarrow> fst (process_message st msg) = None
          \<and> (\<forall>(k, b) \<in> set (breakpoints (snd (process_message st msg))).
                breakpoint_counter st \<le> k \<longrightarrow>
                  \<not> bp_verified (alb_breakpoint b)
                  \<and> bp_line (alb_breakpoint b) = Some (sb_line (alb_source_breakpoint b))
                  \<and> bp_end_line (alb_breakpoint b) = None))"
proof (intro conjI allI impI)
  fix i b
  assume h: "send_queue_active st \<and> i < length (breakpoints st) \<and> b = snd (breakpoints st ! i)
        \<and> actual_path b = p
        \<and> bp_end_line (alb_breakpoint b) = None
        \<and> (bp_line (alb_breakpoint b) = None \<or> (\<exists>l. bp_line (alb_breakpoint b) = Some l \<and> l \<le> line))"
  then have m: "bp_matches b p line" by (auto simp: bp_matches_def)
  let ?P = "\<lambda>j. j < length (breakpoints st) \<and> bp_matches (snd (breakpoints st ! j)) p line"
  define j where "j = (LEAST j. ?P j)"
  from h m have Pi: "?P i" by simp
  then have Pj: "?P j" unfolding j_def by (rule LeastI)
  have ji: "j \<le> i" unfolding j_def using Pi by (rule Least_le)
  have least: "\<forall>j' < j. \<not> bp_matches (snd (breakpoints st ! j')) p line"
  proof (intro allI impI)
    fix j' assume lt: "j' < j"
    then have "\<not> ?P j'" unfolding j_def by (rule not_less_Least)
    moreover from lt Pj have "j' < length (breakpoints st)" by simp
    ultimately show "\<not> bp_matches (snd (breakpoints st ! j')) p line" by simp
  qed
  from Pj least have "first_match (breakpoints st) p line = Some (snd (breakpoints st ! j))"
    unfolding first_match_Some by blast
  with h have gj: "get_breakpoint st p line = Some (snd (breakpoints st ! j))"
    by (simp add: get_breakpoint_def)
  with ji show "\<exists>j \<le> i. get_breakpoint st p line = Some (snd (breakpoints st ! j))" by blast
  show "get_breakpoint st p line = Some b"
    if none: "\<forall>j < i. \<not> bp_matches (snd (breakpoints st ! j)) p line"
  proof -
    have "\<not> j < i" using none Pj by blast
    with ji have "j = i" by simp
    with gj h show ?thesis by simp
  qed
next
  fix msg
  assume h: "reachable st
        \<and> source_info st (convert_to_actual_path (debug_config st) (client_path msg)) = None
        \<and> \<not> req_source_modified msg"
  then show "fst (process_message st msg) = None"
    by (simp add: process_message_not_loaded_returns)
  have pre: "\<forall>(k, b) \<in> set (breakpoints st). k < breakpoint_counter st"
    using h reachable_invariants[of st] by (auto simp: ids_ok_def)
  have run: "process_message st msg = (fst (process_message st msg), snd (process_message st msg))"
    by simp
  from process_message_frame[OF pre run] obtain new where
    n: "breakpoints (snd (process_message st msg)) =
          filter (\<lambda>(k, b). source_path b \<noteq> client_path msg) (breakpoints st) @ new"
       "\<forall>(k, b) \<in> set new. breakpoint_counter st \<le> k \<and> k < breakpoint_counter (snd (process_message st msg))
                \<and> (\<exists>sb bp. sb \<in> set (req_breakpoints msg)
                     \<and> b = stored k (req_source msg) sb bp
                            (convert_to_actual_path (debug_config st) (client_path msg))
                            (client_path msg)
                     \<and> bp_id bp = Some k
                     \<and> (source_info st (convert_to_actual_path (debug_config st) (client_path msg)) = None
                          \<longrightarrow> bp = not_loaded_bp (req_source msg) k (sb_line sb)))"
    by blast
  show "\<forall>(k, b) \<in> set (breakpoints (snd (process_message st msg))).
                breakpoint_counter st \<le> k \<longrightarrow>
                  \<not> bp_verified (alb_breakpoint b)
                  \<and> bp_line (alb_breakpoint b) = Some (sb_line (alb_source_breakpoint b))
                  \<and> bp_end_line (alb_breakpoint b) = None"
  proof (clarify)
    fix k b
    assume kb: "(k, b) \<in> set (breakpoints (snd (process_message st msg)))"
      and ge: "breakpoint_counter st \<le> k"
    from kb n(1) consider "(k, b) \<in> set (breakpoints st)" | "(k, b) \<in> set new" by auto
    then have "(k, b) \<in> set new"
    proof cases
      case 1
      with pre ge show ?thesis by auto
    next
      case 2
      then show ?thesis .
    qed
    with n(2) h obtain sb where "b = stored k (req_source msg) sb
          (not_loaded_bp (req_source msg) k (sb_line sb))
          (convert_to_actual_path (debug_config st) (client_path msg)) (client_path msg)"
      by fastforce
    then show "\<not> bp_verified (alb_breakpoint b)
                  \<and> bp_line (alb_breakpoint b) = Some (sb_line (alb_source_breakpoint b))
                  \<and> bp_end_line (alb_breakpoint b) = None"
      by (simp add: stored_def not_loaded_bp_def)
  qed
qed

theorem C10_absent_end_line_witness:
  "send_queue_active two_files
   \<and> 2 < length (breakpoints two_files)
   \<and> actual_path (snd (breakpoints two_files ! 2)) = ''tasks.yml''
   \<and> bp_end_line (alb_breakpoint (snd (breakpoints two_files ! 2))) = None
   \<and> bp_line (alb_breakpoint (snd (breakpoints two_files ! 2))) = Some 2
   \<and> \<not> bp_verified (alb_breakpoint (snd (breakpoints two_files ! 2)))
   \<and> get_breakpoint two_files ''tasks.yml'' 9 = Some (snd (breakpoints two_files ! 2))
   \<and> reachable attached
   \<and> source_info attached
        (convert_to_actual_path (debug_config attached)
           (client_path (request ''main.yml'' False [3, 5]))) = None
   \<and> \<not> req_source_modified (request ''main.yml'' False [3, 5])
   \<and> fst (process_message attached (request ''main.yml'' False [3, 5])) = None"
proof -
  let ?b = "snd (breakpoints two_files ! 2)"
  let ?r = "request ''main.yml'' False [3, 5]"
  have on: "send_queue_active two_files" by code_simp
  have len: "2 < length (breakpoints two_files)" by code_simp
  have ap: "actual_path ?b = ''tasks.yml''" by code_simp
  have el: "bp_end_line (alb_breakpoint ?b) = None" by code_simp
  have sl: "bp_line (alb_breakpoint ?b) = Some 2" by code_simp
  have nv: "\<not> bp_verified (alb_breakpoint ?b)" by code_simp
  have n0: "\<not> bp_matches (snd (breakpoints two_files ! 0)) ''tasks.yml'' 9" by code_simp
  have n1: "\<not> bp_matches (snd (breakpoints two_files ! 1)) ''tasks.yml'' 9" by code_simp
  have before: "\<forall>j < 2. \<not> bp_matches (snd (breakpoints two_files ! j)) ''tasks.yml'' 9"
  proof (intro allI impI)
    fix j :: nat assume "j < 2"
    then have "j = 0 \<or> j = 1" by auto
    with n0 n1 show "\<not> bp_matches (snd (breakpoints two_files ! j)) ''tasks.yml'' 9" by auto
  qed
  have ln: "bp_line (alb_breakpoint ?b) = None
      \<or> (\<exists>l. bp_line (alb_breakpoint ?b) = Some l \<and> l \<le> 9)" using sl by simp
  from C10_absent_end_line_is_no_bound[of two_files "''tasks.yml''" 9] on len ap el ln before
  have gb: "get_breakpoint two_files ''tasks.yml'' 9 = Some ?b" by blast
  have nt: "source_info attached (convert_to_actual_path (debug_config attached) (client_path ?r)) = None"
    by (simp add: attached_def init_def)
  have nm: "\<not> req_source_modified ?r" by (simp add: request_def)
  from C10_absent_end_line_is_no_bound[of attached "''main.yml''" 9] reachable_attached nt nm
  have ret: "fst (process_message attached ?r) = None" by blast
  from on len ap el sl nv gb reachable_attached nt nm ret show ?thesis by blast
qed

subsection \<open>Re-resolution after a registration\<close>

text \<open>
  Claim C3, as stated, fails while the send queue is not active: in \<open>detached\<close> the two
  breakpoints of the file are stored unverified; registering line 3 as the start of a
  range verifies both, and no event is queued, because \<^verbatim>\<open>send\<close> discards a message when
  the queue is off.
\<close>

theorem C3_inactive_queue_counterexample:
  "\<not> send_queue_active detached
   \<and> map (actual_path \<circ> snd) (breakpoints detached) = [''main.yml'', ''main.yml'']
   \<and> map (bp_verified \<circ> alb_breakpoint \<circ> snd) (breakpoints detached) = [False, False]
   \<and> fst (register_path_breakpoint detached ''main.yml'' 3 1) = None
   \<and> map (bp_verified \<circ> alb_breakpoint \<circ> snd)
        (breakpoints (snd (register_path_breakpoint detached ''main.yml'' 3 1))) = [True, True]
   \<and> send_queue detached = []
   \<and> send_queue (snd (register_path_breakpoint detached ''main.yml'' 3 1)) = []"
  by code_simp

lemma differs_state_changed:
  "differs (alb_breakpoint b) r \<Longrightarrow> state_changed (alb_breakpoint b) (resolved_bp b r)"
  by (cases r) (auto simp: differs_def state_changed_def resolved_bp_def)

lemma state_changed_same [simp]: "\<not> state_changed a a"
  by (simp add: state_changed_def)

lemma reresolve_loop_result:
  "reresolve_loop t p bs st = (e, bs', st') \<Longrightarrow> e = None \<Longrightarrow>
     list_all2 (reresolved t p) bs bs'
   \<and> send_queue st' = send_queue st
        @ (if send_queue_active st then changed_events p bs bs' else [])"
proof (induction rule: reresolve_loop_induct)
  case (Nil st)
  then show ?case by (simp add: changed_events_def)
next
  case (Skip k b bs st e bs' st')
  then show ?case by (simp add: changed_events_def reresolved_def)
next
  case (Raise k b bs st err)
  then show ?case by simp
next
  case (Changed k b bs st r e bs' st')
  let ?ev = "Some (BreakpointEvent ''changed'' (resolved_bp b r))"
  from Changed have ih: "list_all2 (reresolved t p) bs bs'"
    "send_queue st' = send_queue (send st ?ev)
        @ (if send_queue_active st then changed_events p bs bs' else [])" by simp_all
  have one: "reresolved t p (k, b) (k, b\<lparr>alb_breakpoint := resolved_bp b r\<rparr>)"
    using Changed(1,2,3) by (simp add: reresolved_def)
  have ev: "changed_events p ((k, b) # bs) ((k, b\<lparr>alb_breakpoint := resolved_bp b r\<rparr>) # bs')
      = ?ev # changed_events p bs bs'"
    using Changed(1) differs_state_changed[OF Changed(3)] by (simp add: changed_events_def)
  show ?case using ih one ev by (simp add: send_def)
next
  case (Same k b bs st r e bs' st')
  then show ?case by (simp add: changed_events_def reresolved_def)
qed

lemma register_result:
  assumes "register_path_breakpoint st p line k = (None, st')"
  shows "\<exists>t'. source_info st' p = Some t'
           \<and> list_all2 (reresolved t' p) (breakpoints st) (breakpoints st')
           \<and> send_queue st' = send_queue st
                @ (if send_queue_active st then changed_events p (breakpoints st) (breakpoints st') else [])"
  using assms
proof (cases rule: register_cases)
  case (Raise err)
  then show ?thesis by simp
next
  case (Loop t2 bs' st2)
  let ?st1 = "st\<lparr>source_info := (source_info st)(p \<mapsto> t2)\<rparr>"
  from reresolve_loop_result[OF Loop(2) refl]
  have r: "list_all2 (reresolved t2 p) (breakpoints st) bs'"
    "send_queue st2 = send_queue st @ (if send_queue_active st then changed_events p (breakpoints st) bs' else [])"
    by simp_all
  from reresolve_loop_frame[OF Loop(2)] have "source_info st2 p = Some t2" by simp
  with r Loop(3) show ?thesis by (intro exI[of _ t2]) simp
qed

text \<open>The call returns when the lines requested for the path are not negative.\<close>

lemma reresolve_loop_returns:
  assumes "wf_table t"
    and "\<forall>(k, b) \<in> set bs. actual_path b = p \<longrightarrow> 0 \<le> sb_line (alb_source_breakpoint b)"
  shows "fst (reresolve_loop t p bs st) = None"
proof -
  obtain e bs' st' where run: "reresolve_loop t p bs st = (e, bs', st')"
    by (cases "reresolve_loop t p bs st") auto
  from run assms(2) have "e = None"
  proof (induction rule: reresolve_loop_induct)
    case (Raise k b bs st err)
    then have "0 \<le> sb_line (alb_source_breakpoint b)" by simp
    from resolve_line_wf[OF assms(1) this] Raise(2) show ?case by auto
  qed simp_all
  with run show ?thesis by simp
qed

lemma register_returns:
  assumes "tables_ok st" and "0 \<le> line"
    and "\<forall>(k, b) \<in> set (breakpoints st). actual_path b = p \<longrightarrow> 0 \<le> sb_line (alb_source_breakpoint b)"
  shows "fst (register_path_breakpoint st p line k) = None"
proof -
  obtain e st' where run: "register_path_breakpoint st p line k = (e, st')"
    by (cases "register_path_breakpoint st p line k") auto
  from register_tables_ok[OF run assms(1)] have ok': "tables_ok st'" .
  from run have "e = None"
  proof (cases rule: register_cases)
    case (Raise err)
    have "line < int (length (extended st p line))"
      using length_extended[OF assms(2), of st p] assms(2) by linarith
    with Raise(1) assms(2) show ?thesis by (simp add: py_setitem_nonneg)
  next
    case (Loop t2 bs' st2)
    from reresolve_loop_frame[OF Loop(2)] Loop(3) have "source_info st' p = Some t2" by simp
    with ok' have "wf_table t2" by (auto simp: tables_ok_def)
    from reresolve_loop_returns[OF this assms(3), of "st\<lparr>source_info := (source_info st)(p \<mapsto> t2)\<rparr>"]
      Loop(2) show ?thesis by simp
  qed
  with run show ?thesis by simp
qed

lemma changed_events_member:
  assumes "i < length old" "length new = length old"
    and "actual_path (snd (old ! i)) = p"
    and "state_changed (alb_breakpoint (snd (old ! i))) (alb_breakpoint (snd (new ! i)))"
  shows "Some (BreakpointEvent ''changed'' (alb_breakpoint (snd (new ! i)))) \<in> set (changed_events p old new)"
proof -
  have "(old ! i, new ! i) \<in> set (zip old new)"
    using assms(1,2) by (auto simp: set_zip)
  with assms(3,4) have "(old ! i, new ! i) \<in> set (filter (\<lambda>(x, y). actual_path (snd x) = p
                  \<and> state_changed (alb_breakpoint (snd x)) (alb_breakpoint (snd y))) (zip old new))"
    by simp
  then have "(\<lambda>(x, y). Some (BreakpointEvent ''changed'' (alb_breakpoint (snd y)))) (old ! i, new ! i)
     \<in> (\<lambda>(x, y). Some (BreakpointEvent ''changed'' (alb_breakpoint (snd y))))
         ` set (filter (\<lambda>(x, y). actual_path (snd x) = p
                  \<and> state_changed (alb_breakpoint (snd x)) (alb_breakpoint (snd y))) (zip old new))"
    by (rule imageI)
  then show ?thesis unfolding changed_events_def by simp
qed

lemma register_verifies_exact_line:
  assumes run: "register_path_breakpoint st p line k = (None, st')"
    and reach: "reachable st" and line: "1 \<le> line" and k: "k \<noteq> 0"
    and i: "i < length (breakpoints st)" and b: "b = snd (breakpoints st ! i)"
    and path: "actual_path b = p" and req: "sb_line (alb_source_breakpoint b) = line"
    and noend: "bp_end_line (alb_breakpoint b) = None"
  shows "\<exists>e \<ge> line.
           alb_breakpoint (snd (breakpoints st' ! i)) =
             \<lparr> bp_id = Some (alb_id b), bp_verified = True, bp_message = None,
               bp_source = Some (alb_source b), bp_line = Some line, bp_end_line = Some e \<rparr>
         \<and> (source_info st p = None \<longrightarrow> e = line)
         \<and> (send_queue_active st \<longrightarrow>
               Some (BreakpointEvent ''changed'' (alb_breakpoint (snd (breakpoints st' ! i))))
                 \<in> set (send_queue st'))"
proof -
  have l0: "0 \<le> line" using line by simp
  from register_result[OF run] obtain t' where
    t': "source_info st' p = Some t'"
    and all2: "list_all2 (reresolved t' p) (breakpoints st) (breakpoints st')"
    and q: "send_queue st' = send_queue st
              @ (if send_queue_active st then changed_events p (breakpoints st) (breakpoints st') else [])"
    by blast
  from register_table_nonneg[OF run l0] t'
  have t'_eq: "t' = (extended st p line)[nat line := Some k]" by simp
  have lenx: "nat line < length (extended st p line)" by (rule length_extended[OF l0])
  then have at: "t' ! nat line = Some k" and inb: "line < int (length t')"
    unfolding t'_eq by simp_all
  from reachable_invariants[OF reach] register_tables_ok[OF run] t'
  have wf: "wf_table t'" by (auto simp: tables_ok_def)
  from resolve_line_wf[OF wf l0] obtain s e lt where
    r: "resolve_line t' line =
          Inr (lt \<noteq> 0, (if lt = 0 then Some ''Breakpoint cannot be set here.'' else None), s, e)"
    and s: "0 \<le> s" "s \<le> min line (int (length t') - 1)"
    and e: "min line (int (length t') - 1) \<le> e" "e < int (length t')"
    and ts: "t' ! nat s = Some lt"
    and gap: "\<forall>j. s < j \<and> j \<le> e \<longrightarrow> t' ! nat j = None"
    by blast
  have m: "min line (int (length t') - 1) = line" using inb by simp
  have "s = line"
  proof (rule ccontr)
    assume "s \<noteq> line"
    with s(2) m have "s < line" by simp
    with gap e(1) m have "t' ! nat line = None" by simp
    with at show False by simp
  qed
  with ts at have lt: "lt = k" by simp
  with r k \<open>s = line\<close> have r': "resolve_line t' line = Inr (True, None, line, e)" by simp
  have le: "line \<le> e" using e(1) m by simp
  from all2 i have len: "length (breakpoints st') = length (breakpoints st)"
    and one: "reresolved t' p (breakpoints st ! i) (breakpoints st' ! i)"
    by (simp_all add: list_all2_lengthD list_all2_nthD)
  have d: "differs (alb_breakpoint b) (True, None, line, e)"
    using noend by (simp add: differs_def)
  from one b path req r' d
  have new: "snd (breakpoints st' ! i) = b\<lparr>alb_breakpoint := resolved_bp b (True, None, line, e)\<rparr>"
    by (simp add: reresolved_def)
  then have st: "alb_breakpoint (snd (breakpoints st' ! i)) =
             \<lparr> bp_id = Some (alb_id b), bp_verified = True, bp_message = None,
               bp_source = Some (alb_source b), bp_line = Some line, bp_end_line = Some e \<rparr>"
    by (simp add: resolved_bp_def)
  have fresh: "source_info st p = None \<longrightarrow> e = line"
  proof
    assume "source_info st p = None"
    then have "length (extended st p line) = nat line + 1"
      using line by (simp add: extended_def)
    then have "length t' = nat line + 1" unfolding t'_eq by simp
    with e(2) le l0 show "e = line" by linarith
  qed
  have sc: "state_changed (alb_breakpoint (snd (breakpoints st ! i)))
              (alb_breakpoint (snd (breakpoints st' ! i)))"
    using st noend b by (simp add: state_changed_def)
  have ev: "send_queue_active st \<longrightarrow>
               Some (BreakpointEvent ''changed'' (alb_breakpoint (snd (breakpoints st' ! i))))
                 \<in> set (send_queue st')"
  proof
    assume on: "send_queue_active st"
    from changed_events_member[OF i len _ sc, of p] path b
    have "Some (BreakpointEvent ''changed'' (alb_breakpoint (snd (breakpoints st' ! i))))
            \<in> set (changed_events p (breakpoints st) (breakpoints st'))" by simp
    with q on show "Some (BreakpointEvent ''changed'' (alb_breakpoint (snd (breakpoints st' ! i))))
                 \<in> set (send_queue st')" by simp
  qed
  show ?thesis
    by (rule exI[of _ e]) (intro conjI le st fresh ev)
qed

text \<open>
  Claim C3, amended. After a call \<^verbatim>\<open>register_path_breakpoint(path, line, kind)\<close> that
  returns: every stored breakpoint keeps its key; one on another path is unchanged; one
  on this path has been resolved against the updated table, its state replaced by the
  resolution exactly when the verified flag, the line or the end line differs. For the
  breakpoints so changed, in registry order, a changed event with the new state was
  handed to \<^verbatim>\<open>send\<close>: the queue grew by exactly these events when it is active, and
  not at all when it is not. In particular, in a reachable debugger, a breakpoint of
  this path stored without an end line whose requested line is the registered line
  (at least 1, with a kind other than 0) is verified afterwards, with that line as
  its start and an end line at or after it (the line itself when the path had no table),
  and its changed event is in the queue when the queue is active.
\<close>

theorem C3_register_reresolves_and_sends:
  assumes "register_path_breakpoint st p line k = (None, st')"
  shows "(\<exists>t'. source_info st' p = Some t'
           \<and> list_all2 (reresolved t' p) (breakpoints st) (breakpoints st'))
       \<and> send_queue st' = send_queue st
            @ (if send_queue_active st
               then changed_events p (breakpoints st) (breakpoints st') else [])
       \<and> (\<forall>i b. reachable st \<and> 1 \<le> line \<and> k \<noteq> 0
             \<and> i < length (breakpoints st) \<and> b = snd (breakpoints st ! i)
             \<and> actual_path b = p \<and> sb_line (alb_source_breakpoint b) = line
             \<and> bp_end_line (alb_breakpoint b) = None
           \<longrightarrow> (\<exists>e \<ge> line.
                  alb_breakpoint (snd (breakpoints st' ! i)) =
                    \<lparr> bp_id = Some (alb_id b), bp_verified = True, bp_message = None,
                      bp_source = Some (alb_source b), bp_line = Some line, bp_end_line = Some e \<rparr>
                  \<and> (source_info st p = None \<longrightarrow> e = line)
                  \<and> (send_queue_active st \<longrightarrow>
                        Some (BreakpointEvent ''changed'' (alb_breakpoint (snd (breakpoints st' ! i))))
                          \<in> set (send_queue st'))))"
proof (intro conjI allI impI)
  from register_result[OF assms]
  show "\<exists>t'. source_info st' p = Some t'
           \<and> list_all2 (reresolved t' p) (breakpoints st) (breakpoints st')" by blast
  from register_result[OF assms]
  show "send_queue st' = send_queue st
            @ (if send_queue_active st
               then changed_events p (breakpoints st) (breakpoints st') else [])" by blast
next
  fix i b
  assume h: "reachable st \<and> 1 \<le> line \<and> k \<noteq> 0
             \<and> i < length (breakpoints st) \<and> b = snd (breakpoints st ! i)
             \<and> actual_path b = p \<and> sb_line (alb_source_breakpoint b) = line
             \<and> bp_end_line (alb_breakpoint b) = None"
  then have h1: "reachable st" and h2: "1 \<le> line" and h3: "k \<noteq> 0"
    and h4: "i < length (breakpoints st)" and h5: "b = snd (breakpoints st ! i)"
    and h6: "actual_path b = p" and h7: "sb_line (alb_source_breakpoint b) = line"
    and h8: "bp_end_line (alb_breakpoint b) = None" by blast+
  show "\<exists>e \<ge> line.
                  alb_breakpoint (snd (breakpoints st' ! i)) =
                    \<lparr> bp_id = Some (alb_id b), bp_verified = True, bp_message = None,
                      bp_source = Some (alb_source b), bp_line = Some line, bp_end_line = Some e \<rparr>
                  \<and> (source_info st p = None \<longrightarrow> e = line)
                  \<and> (send_queue_active st \<longrightarrow>
                        Some (BreakpointEvent ''changed'' (alb_breakpoint (snd (breakpoints st' ! i))))
                          \<in> set (send_queue st'))"
    by (rule register_verifies_exact_line[OF assms h1 h2 h3 h4 h5 h6 h7 h8])
qed

theorem C3_register_witness:
  "register_path_breakpoint pending ''main.yml'' 3 1
     = (None, snd (register_path_breakpoint pending ''main.yml'' 3 1))
   \<and> reachable pending \<and> send_queue_active pending \<and> source_info pending ''main.yml'' = None
   \<and> actual_path (snd (breakpoints pending ! 0)) = ''main.yml''
   \<and> sb_line (alb_source_breakpoint (snd (breakpoints pending ! 0))) = 3
   \<and> \<not> bp_verified (alb_breakpoint (snd (breakpoints pending ! 0)))
   \<and> bp_end_line (alb_breakpoint (snd (breakpoints pending ! 0))) = None
   \<and> send_queue (snd (register_path_breakpoint pending ''main.yml'' 3 1))
        = send_queue pending
          @ changed_events ''main.yml'' (breakpoints pending)
              (breakpoints (snd (register_path_breakpoint pending ''main.yml'' 3 1)))
   \<and> Some (BreakpointEvent ''changed''
        (alb_breakpoint (snd (breakpoints (snd (register_path_breakpoint pending ''main.yml'' 3 1)) ! 0))))
        \<in> set (send_queue (snd (register_path_breakpoint pending ''main.yml'' 3 1)))
   \<and> alb_breakpoint (snd (breakpoints (snd (register_path_breakpoint pending ''main.yml'' 3 1)) ! 0))
        = \<lparr> bp_id = Some 1, bp_verified = True, bp_message = None,
            bp_source = Some \<lparr> src_path = Some ''main.yml'' \<rparr>,
            bp_line = Some 3, bp_end_line = Some 3 \<rparr>"
proof -
  let ?st' = "snd (register_path_breakpoint pending ''main.yml'' 3 1)"
  let ?b = "snd (breakpoints pending ! 0)"
  have ret: "fst (register_path_breakpoint pending ''main.yml'' 3 1) = None" by code_simp
  have run: "register_path_breakpoint pending ''main.yml'' 3 1 = (None, ?st')"
    using ret by (simp add: prod_eq_iff)
  have on: "send_queue_active pending" by code_simp
  have fresh: "source_info pending ''main.yml'' = None" by code_simp
  have len: "0 < length (breakpoints pending)" by code_simp
  have ap: "actual_path ?b = ''main.yml''" by code_simp
  have rq: "sb_line (alb_source_breakpoint ?b) = 3" by code_simp
  have nv: "\<not> bp_verified (alb_breakpoint ?b)" by code_simp
  have ne: "bp_end_line (alb_breakpoint ?b) = None" by code_simp
  have l: "(1::int) \<le> 3" and k: "(1::int) \<noteq> 0" by simp_all
  note inst = C3_register_reresolves_and_sends[OF run]
  from inst on have q: "send_queue ?st' = send_queue pending
          @ changed_events ''main.yml'' (breakpoints pending) (breakpoints ?st')" by simp
  from inst have part: "\<forall>i b. reachable pending \<and> (1::int) \<le> 3 \<and> (1::int) \<noteq> 0
             \<and> i < length (breakpoints pending) \<and> b = snd (breakpoints pending ! i)
             \<and> actual_path b = ''main.yml'' \<and> sb_line (alb_source_breakpoint b) = 3
             \<and> bp_end_line (alb_breakpoint b) = None
           \<longrightarrow> (\<exists>e \<ge> 3.
                  alb_breakpoint (snd (breakpoints ?st' ! i)) =
                    \<lparr> bp_id = Some (alb_id b), bp_verified = True, bp_message = None,
                      bp_source = Some (alb_source b), bp_line = Some 3, bp_end_line = Some e \<rparr>
                  \<and> (source_info pending ''main.yml'' = None \<longrightarrow> e = 3)
                  \<and> (send_queue_active pending \<longrightarrow>
                        Some (BreakpointEvent ''changed'' (alb_breakpoint (snd (breakpoints ?st' ! i))))
                          \<in> set (send_queue ?st')))" by blast
  from part reachable_pending l k len ap rq ne on
  have ev: "Some (BreakpointEvent ''changed'' (alb_breakpoint (snd (breakpoints ?st' ! 0))))
              \<in> set (send_queue ?st')" by blast
  have val: "alb_breakpoint (snd (breakpoints ?st' ! 0))
        = \<lparr> bp_id = Some 1, bp_verified = True, bp_message = None,
            bp_source = Some \<lparr> src_path = Some ''main.yml'' \<rparr>,
            bp_line = Some 3, bp_end_line = Some 3 \<rparr>" by code_simp
  show ?thesis
    by (intro conjI run reachable_pending on fresh ap rq nv ne q ev val)
qed

subsection \<open>The ranges resolved against the table of lines 0, 3 and 5\<close>

lemma resolve_1: "resolve_line [Some 0, None, None, Some 1, None, Some 0] 1
    = Inr (False, Some ''Breakpoint cannot be set here.'', 0, 2)"
  by code_simp

lemma resolve_3: "resolve_line [Some 0, None, None, Some 1, None, Some 0] 3 = Inr (True, None, 3, 4)"
  by code_simp

lemma resolve_4: "resolve_line [Some 0, None, None, Some 1, None, Some 0] 4 = Inr (True, None, 3, 4)"
  by code_simp

lemma resolve_5: "resolve_line [Some 0, None, None, Some 1, None, Some 0] 5
    = Inr (False, Some ''Breakpoint cannot be set here.'', 5, 5)"
  by code_simp

lemma resolve_line_clamped:
  assumes "int (length t) - 1 \<le> line"
  shows "resolve_line t line = resolve_line t (int (length t) - 1)"
proof -
  have "min line (int (length t) - 1) = min (int (length t) - 1) (int (length t) - 1)"
    using assms by simp
  then show ?thesis by (simp only: resolve_line_def)
qed

lemma resolve_past_end:
  assumes "6 \<le> line"
  shows "resolve_line [Some 0, None, None, Some 1, None, Some 0] line
    = Inr (False, Some ''Breakpoint cannot be set here.'', 5, 5)"
proof -
  have "resolve_line [Some 0, None, None, Some 1, None, Some 0] line
      = resolve_line [Some 0, None, None, Some 1, None, Some 0] 5"
    using assms resolve_line_clamped[of "[Some 0, None, None, Some 1, None, Some 0]" line] by simp
  then show ?thesis by (simp add: resolve_5)
qed

lemma register_write_line:
  "0 \<le> line \<Longrightarrow>
   source_info (snd (register_path_breakpoint st p line k)) p = Some (write_line (source_info st p) line k)"
  using register_table_nonneg[of st p line k "fst (register_path_breakpoint st p line k)"
          "snd (register_path_breakpoint st p line k)"]
  by (simp add: write_line_def extended_def Let_def)

lemma register_all_table:
  "\<forall>(line, k) \<in> set regs. 0 \<le> line \<Longrightarrow>
   source_info (register_all st p regs) p
     = foldl (\<lambda>tbl (line, k). Some (write_line tbl line k)) (source_info st p) regs"
proof (induction regs arbitrary: st)
  case Nil
  then show ?case by (simp add: register_all_def)
next
  case (Cons r regs)
  obtain line k where r: "r = (line, k)" by (cases r)
  with Cons.prems have l: "0 \<le> line" and rest: "\<forall>(line, k) \<in> set regs. 0 \<le> line" by simp_all
  have "register_all st p (r # regs) = register_all (snd (register_path_breakpoint st p line k)) p regs"
    by (simp add: register_all_def r)
  with Cons.IH[OF rest, of "snd (register_path_breakpoint st p line k)"] register_write_line[OF l, of st p k]
  show ?case by (simp add: r)
qed

lemma six_orders:
  "foldl (\<lambda>tbl (line, k). Some (write_line tbl line k)) None [(0, 0), (3, 1), (5, 0)]
     = Some [Some 0, None, None, Some 1, None, Some 0]"
  "foldl (\<lambda>tbl (line, k). Some (write_line tbl line k)) None [(0, 0), (5, 0), (3, 1)]
     = Some [Some 0, None, None, Some 1, None, Some 0]"
  "foldl (\<lambda>tbl (line, k). Some (write_line tbl line k)) None [(3, 1), (0, 0), (5, 0)]
     = Some [Some 0, None, None, Some 1, None, Some 0]"
  "foldl (\<lambda>tbl (line, k). Some (write_line tbl line k)) None [(3, 1), (5, 0), (0, 0)]
     = Some [Some 0, None, None, Some 1, None, Some 0]"
  "foldl (\<lambda>tbl (line, k). Some (write_line tbl line k)) None [(5, 0), (0, 0), (3, 1)]
     = Some [Some 0, None, None, Some 1, None, Some 0]"
  "foldl (\<lambda>tbl (line, k). Some (write_line tbl line k)) None [(5, 0), (3, 1), (0, 0)]
     = Some [Some 0, None, None, Some 1, None, Some 0]"
  by code_simp+

lemma process_message_one_located:
  assumes "source_info st (convert_to_actual_path (debug_config st) (client_path msg)) = Some t"
    and "t \<noteq> []" and "\<not> req_source_modified msg" and "req_breakpoints msg = [sb]"
    and "resolve_line t (sb_line sb) = Inr r"
  shows "fst (process_message st msg) = None
       \<and> send_queue (snd (process_message st msg)) = send_queue st
            @ (if send_queue_active st
               then [Some (SetBreakpointsResponse (req_seq msg)
                       [located_bp (req_source msg) (breakpoint_counter st) r])]
               else [])"
proof -
  let ?sp = "client_path msg"
  let ?a = "convert_to_actual_path (debug_config st) ?sp"
  let ?st1 = "st\<lparr>breakpoints := filter (\<lambda>(bpid, b). source_path b \<noteq> ?sp) (breakpoints st)\<rparr>"
  let ?bp = "located_bp (req_source msg) (breakpoint_counter st) r"
  from sbl_located[OF refl assms(2,5), of "req_source msg" ?a ?sp "[]" "[]" ?st1]
  have loop: "set_breakpoints_loop (req_source msg) False (Some t) ?a ?sp [sb] [] ?st1 =
     (None, [?bp],
      ?st1\<lparr>breakpoint_counter := breakpoint_counter ?st1 + 1,
          breakpoints := dict_setitem (breakpoints ?st1) (breakpoint_counter ?st1)
             (stored (breakpoint_counter ?st1) (req_source msg) sb ?bp ?a ?sp)\<rparr>)"
    by (simp del: set_breakpoints_loop.simps(2))
  have pm: "process_message st msg =
     (case set_breakpoints_loop (req_source msg) False (Some t) ?a ?sp [sb] [] ?st1 of
        (Some e, info, st2) \<Rightarrow> (Some e, st2)
      | (None, info, st2) \<Rightarrow> (None, send st2 (Some (SetBreakpointsResponse (req_seq msg) info))))"
    using assms(1,3,4) unfolding process_message_def client_path_def Let_def
    by (simp del: set_breakpoints_loop.simps)
  show ?thesis unfolding pm loop by (simp add: send_def)
qed

text \<open>
  Claim C1, as stated, fails: the end line that the handler reports is the index of the
  next classified slot minus one. Against the table built by registering 0 as invalid,
  3 as a start and 5 as invalid, the request for lines 1 and 6 is answered with the
  ranges 0 to 2 and 5 to 5, not 0 to 3 and 5 to 6 (the length of the table).
\<close>

theorem C1_end_line_counterexample:
  "source_info table_0_3_5 ''main.yml'' = Some [Some 0, None, None, Some 1, None, Some 0]
   \<and> send_queue (snd (process_message table_0_3_5 (request ''main.yml'' False [1, 6]))) =
       [Some (SetBreakpointsResponse 1
          [\<lparr> bp_id = Some 1, bp_verified = False,
              bp_message = Some ''Breakpoint cannot be set here.'',
              bp_source = Some \<lparr> src_path = Some ''main.yml'' \<rparr>,
              bp_line = Some 0, bp_end_line = Some 2 \<rparr>,
           \<lparr> bp_id = Some 2, bp_verified = False,
              bp_message = Some ''Breakpoint cannot be set here.'',
              bp_source = Some \<lparr> src_path = Some ''main.yml'' \<rparr>,
              bp_line = Some 5, bp_end_line = Some 5 \<rparr>])]
   \<and> resolve_line [Some 0, None, None, Some 1, None, Some 0] 1
        \<noteq> Inr (False, Some ''Breakpoint cannot be set here.'', 0, 3)
   \<and> resolve_line [Some 0, None, None, Some 1, None, Some 0] 6
        \<noteq> Inr (False, Some ''Breakpoint cannot be set here.'', 5,
                int (length [Some (0::int), None, None, Some 1, None, Some 0]))"
  by code_simp

text \<open>
  Claim C1, amended. Registering line 0 as invalid, line 3 as a start and line 5 as
  invalid for a path without a table, in any of the six orders, builds the same table.
  Against that table the set-breakpoints handler (queue active, source not modified)
  answers a requested line 1 with an unverified breakpoint from line 0 to end line 2,
  a requested line 3 or 4 with a verified one from 3 to 4, and a requested line of 6
  or more with an unverified one from 5 to 5, the last index of the table. In general,
  on a well-formed table the reported end line is an index of the table, every slot
  after the start up to it is a continuation, and the slot after it, if there is one, is
  classified: the end line is the index of the next classified slot (or the length of
  the table) minus one, the last line of the range and not the line after it.
\<close>

theorem C1_resolved_ranges_inclusive_end:
  "(source_info sta p = None
      \<and> regs \<in> set [[(0, 0), (3, 1), (5, 0)], [(0, 0), (5, 0), (3, 1)], [(3, 1), (0, 0), (5, 0)],
                     [(3, 1), (5, 0), (0, 0)], [(5, 0), (0, 0), (3, 1)], [(5, 0), (3, 1), (0, 0)]]
     \<longrightarrow> source_info (register_all sta p regs) p = Some [Some 0, None, None, Some 1, None, Some 0])
   \<and> (source_info st (convert_to_actual_path (debug_config st) (client_path msg))
          = Some [Some 0, None, None, Some 1, None, Some 0]
      \<and> \<not> req_source_modified msg \<and> req_breakpoints msg = [\<lparr> sb_line = L \<rparr>]
      \<and> send_queue_active st \<and> (L = 1 \<or> L = 3 \<or> L = 4 \<or> 6 \<le> L)
     \<longrightarrow> (\<exists>bp. fst (process_message st msg) = None
            \<and> send_queue (snd (process_message st msg))
                 = send_queue st @ [Some (SetBreakpointsResponse (req_seq msg) [bp])]
            \<and> bp_id bp = Some (breakpoint_counter st)
            \<and> (L = 1 \<longrightarrow> \<not> bp_verified bp \<and> bp_line bp = Some 0 \<and> bp_end_line bp = Some 2)
            \<and> (L = 3 \<or> L = 4 \<longrightarrow> bp_verified bp \<and> bp_line bp = Some 3 \<and> bp_end_line bp = Some 4)
            \<and> (6 \<le> L \<longrightarrow> \<not> bp_verified bp \<and> bp_line bp = Some 5
                  \<and> bp_end_line bp
                       = Some (int (length [Some (0::int), None, None, Some 1, None, Some 0]) - 1))))
   \<and> (wf_table t \<and> 0 \<le> line
     \<longrightarrow> (\<exists>verified bp_msg s e. resolve_line t line = Inr (verified, bp_msg, s, e)
            \<and> s \<le> e \<and> e < int (length t)
            \<and> (\<forall>j. s < j \<and> j \<le> e \<longrightarrow> t ! nat j = None)
            \<and> (e + 1 < int (length t) \<longrightarrow> t ! nat (e + 1) \<noteq> None)))"
proof (intro conjI impI)
  let ?T = "[Some (0::int), None, None, Some 1, None, Some 0]"
  assume h: "source_info sta p = None
      \<and> regs \<in> set [[(0, 0), (3, 1), (5, 0)], [(0, 0), (5, 0), (3, 1)], [(3, 1), (0, 0), (5, 0)],
                     [(3, 1), (5, 0), (0, 0)], [(5, 0), (0, 0), (3, 1)], [(5, 0), (3, 1), (0, 0)]]"
  then have nn: "\<forall>(line, k) \<in> set regs. 0 \<le> line" by auto
  from h have "foldl (\<lambda>tbl (line, k). Some (write_line tbl line k)) None regs = Some ?T"
    using six_orders by auto
  with register_all_table[OF nn, of sta p] h
  show "source_info (register_all sta p regs) p = Some ?T" by simp
next
  let ?T = "[Some (0::int), None, None, Some 1, None, Some 0]"
  assume h: "source_info st (convert_to_actual_path (debug_config st) (client_path msg)) = Some ?T
      \<and> \<not> req_source_modified msg \<and> req_breakpoints msg = [\<lparr> sb_line = L \<rparr>]
      \<and> send_queue_active st \<and> (L = 1 \<or> L = 3 \<or> L = 4 \<or> 6 \<le> L)"
  then have tbl: "source_info st (convert_to_actual_path (debug_config st) (client_path msg)) = Some ?T"
    and nm: "\<not> req_source_modified msg" and one: "req_breakpoints msg = [\<lparr> sb_line = L \<rparr>]"
    and on: "send_queue_active st" and cases: "L = 1 \<or> L = 3 \<or> L = 4 \<or> 6 \<le> L" by blast+
  have ne: "?T \<noteq> []" by simp
  from cases consider "L = 1" | "L = 3" | "L = 4" | "6 \<le> L" by blast
  then have "\<exists>r. resolve_line ?T L = Inr r
      \<and> (L = 1 \<longrightarrow> r = (False, Some ''Breakpoint cannot be set here.'', 0, 2))
      \<and> (L = 3 \<or> L = 4 \<longrightarrow> r = (True, None, 3, 4))
      \<and> (6 \<le> L \<longrightarrow> r = (False, Some ''Breakpoint cannot be set here.'', 5, 5))"
  proof cases
    case 1
    then show ?thesis
      by (intro exI[of _ "(False, Some ''Breakpoint cannot be set here.'', 0, 2)"]) (simp add: resolve_1)
  next
    case 2
    then show ?thesis by (intro exI[of _ "(True, None, 3, 4)"]) (simp add: resolve_3)
  next
    case 3
    then show ?thesis by (intro exI[of _ "(True, None, 3, 4)"]) (simp add: resolve_4)
  next
    case 4
    then show ?thesis
      by (intro exI[of _ "(False, Some ''Breakpoint cannot be set here.'', 5, 5)"])
         (simp add: resolve_past_end)
  qed
  then obtain r where r: "resolve_line ?T L = Inr r"
    and r1: "L = 1 \<longrightarrow> r = (False, Some ''Breakpoint cannot be set here.'', 0, 2)"
    and r34: "L = 3 \<or> L = 4 \<longrightarrow> r = (True, None, 3, 4)"
    and r6: "6 \<le> L \<longrightarrow> r = (False, Some ''Breakpoint cannot be set here.'', 5, 5)"
    by blast
  have sbl: "resolve_line ?T (sb_line \<lparr> sb_line = L \<rparr>) = Inr r" using r by simp
  from process_message_one_located[OF tbl ne nm one sbl] on
  have pm: "fst (process_message st msg) = None"
    "send_queue (snd (process_message st msg)) = send_queue st
       @ [Some (SetBreakpointsResponse (req_seq msg)
                 [located_bp (req_source msg) (breakpoint_counter st) r])]" by simp_all
  let ?bp = "located_bp (req_source msg) (breakpoint_counter st) r"
  have id: "bp_id ?bp = Some (breakpoint_counter st)" by (cases r) (simp add: located_bp_def)
  have c1: "L = 1 \<longrightarrow> \<not> bp_verified ?bp \<and> bp_line ?bp = Some 0 \<and> bp_end_line ?bp = Some 2"
    using r1 by (simp add: located_bp_def)
  have c34: "L = 3 \<or> L = 4 \<longrightarrow> bp_verified ?bp \<and> bp_line ?bp = Some 3 \<and> bp_end_line ?bp = Some 4"
    using r34 by (auto simp: located_bp_def)
  have c6: "6 \<le> L \<longrightarrow> \<not> bp_verified ?bp \<and> bp_line ?bp = Some 5
                  \<and> bp_end_line ?bp = Some (int (length ?T) - 1)"
    using r6 by (simp add: located_bp_def)
  show "\<exists>bp. fst (process_message st msg) = None
            \<and> send_queue (snd (process_message st msg))
                 = send_queue st @ [Some (SetBreakpointsResponse (req_seq msg) [bp])]
            \<and> bp_id bp = Some (breakpoint_counter st)
            \<and> (L = 1 \<longrightarrow> \<not> bp_verified bp \<and> bp_line bp = Some 0 \<and> bp_end_line bp = Some 2)
            \<and> (L = 3 \<or> L = 4 \<longrightarrow> bp_verified bp \<and> bp_line bp = Some 3 \<and> bp_end_line bp = Some 4)
            \<and> (6 \<le> L \<longrightarrow> \<not> bp_verified bp \<and> bp_line bp = Some 5
                  \<and> bp_end_line bp = Some (int (length ?T) - 1))"
    by (rule exI[of _ ?bp]) (intro conjI pm id c1 c34 c6)
next
  assume h: "wf_table t \<and> 0 \<le> line"
  then have wf: "wf_table t" and l: "0 \<le> line" by simp_all
  from resolve_line_wf[OF wf l] obtain s e lt where
    r: "resolve_line t line =
          Inr (lt \<noteq> 0, (if lt = 0 then Some ''Breakpoint cannot be set here.'' else None), s, e)"
    and s0: "0 \<le> s"
    and b: "s \<le> min line (int (length t) - 1)" "min line (int (length t) - 1) \<le> e"
       "e < int (length t)"
    and ts: "t ! nat s = Some lt"
    and gap: "\<forall>j. s < j \<and> j \<le> e \<longrightarrow> t ! nat j = None"
    and nxt: "e + 1 < int (length t) \<longrightarrow> t ! nat (e + 1) \<noteq> None"
    by blast
  from b(1) b(2) have se: "s \<le> e" by (rule order_trans)
  show "\<exists>verified bp_msg s e. resolve_line t line = Inr (verified, bp_msg, s, e)
            \<and> s \<le> e \<and> e < int (length t)
            \<and> (\<forall>j. s < j \<and> j \<le> e \<longrightarrow> t ! nat j = None)
            \<and> (e + 1 < int (length t) \<longrightarrow> t ! nat (e + 1) \<noteq> None)"
    by (intro exI conjI) (rule r, rule se, rule b(3), rule gap, rule nxt)
qed

theorem C1_resolved_ranges_witness:
  "source_info attached ''main.yml'' = None
   \<and> source_info (register_all attached ''main.yml'' [(3, 1), (5, 0), (0, 0)]) ''main.yml''
        = Some [Some 0, None, None, Some 1, None, Some 0]
   \<and> source_info table_0_3_5
        (convert_to_actual_path (debug_config table_0_3_5) (client_path (request ''main.yml'' False [6])))
        = Some [Some 0, None, None, Some 1, None, Some 0]
   \<and> \<not> req_source_modified (request ''main.yml'' False [6])
   \<and> req_breakpoints (request ''main.yml'' False [6]) = [\<lparr> sb_line = 6 \<rparr>]
   \<and> send_queue_active table_0_3_5
   \<and> (\<exists>bp. send_queue (snd (process_message table_0_3_5 (request ''main.yml'' False [6])))
              = send_queue table_0_3_5
                @ [Some (SetBreakpointsResponse (req_seq (request ''main.yml'' False [6])) [bp])]
          \<and> \<not> bp_verified bp \<and> bp_line bp = Some 5 \<and> bp_end_line bp = Some 5)
   \<and> wf_table [Some 0, None, None, Some 1, None, Some 0]
   \<and> (\<exists>verified bp_msg s e.
          resolve_line [Some 0, None, None, Some 1, None, Some 0] 4 = Inr (verified, bp_msg, s, e)
          \<and> s \<le> e \<and> e < 6)"
proof -
  let ?T = "[Some (0::int), None, None, Some 1, None, Some 0]"
  let ?R = "request ''main.yml'' False [6]"
  note inst = C1_resolved_ranges_inclusive_end[where sta = attached and p = "''main.yml''"
      and regs = "[(3, 1), (5, 0), (0, 0)]" and st = table_0_3_5 and msg = ?R and L = 6
      and t = ?T and line = 4]
  have a1: "source_info attached ''main.yml'' = None" by code_simp
  have a2: "[(3, 1), (5, 0), (0, 0)] \<in> set [[(0, 0), (3, 1), (5, 0)], [(0, 0), (5, 0), (3, 1)],
       [(3, 1), (0, 0), (5, 0)], [(3, 1), (5, 0), (0::int, 0::int)], [(5, 0), (0, 0), (3, 1)],
       [(5, 0), (3, 1), (0, 0)]]" by simp
  from inst a1 a2 have c1: "source_info (register_all attached ''main.yml'' [(3, 1), (5, 0), (0, 0)])
      ''main.yml'' = Some ?T" by blast
  have b1: "source_info table_0_3_5
        (convert_to_actual_path (debug_config table_0_3_5) (client_path ?R)) = Some ?T" by code_simp
  have b2: "\<not> req_source_modified ?R" by (simp add: request_def)
  have b3: "req_breakpoints ?R = [\<lparr> sb_line = 6 \<rparr>]" by (simp add: request_def)
  have b4: "send_queue_active table_0_3_5" by code_simp
  have b5: "(6::int) = 1 \<or> (6::int) = 3 \<or> (6::int) = 4 \<or> (6::int) \<le> 6" by simp
  from inst b1 b2 b3 b4 b5
  have "\<exists>bp. fst (process_message table_0_3_5 ?R) = None
            \<and> send_queue (snd (process_message table_0_3_5 ?R))
                 = send_queue table_0_3_5 @ [Some (SetBreakpointsResponse (req_seq ?R) [bp])]
            \<and> bp_id bp = Some (breakpoint_counter table_0_3_5)
            \<and> ((6::int) = 1 \<longrightarrow> \<not> bp_verified bp \<and> bp_line bp = Some 0 \<and> bp_end_line bp = Some 2)
            \<and> ((6::int) = 3 \<or> (6::int) = 4 \<longrightarrow> bp_verified bp \<and> bp_line bp = Some 3 \<and> bp_end_line bp = Some 4)
            \<and> ((6::int) \<le> 6 \<longrightarrow> \<not> bp_verified bp \<and> bp_line bp = Some 5
                  \<and> bp_end_line bp = Some (int (length ?T) - 1))" by blast
  then have c2: "\<exists>bp. send_queue (snd (process_message table_0_3_5 ?R))
              = send_queue table_0_3_5 @ [Some (SetBreakpointsResponse (req_seq ?R) [bp])]
          \<and> \<not> bp_verified bp \<and> bp_line bp = Some 5 \<and> bp_end_line bp = Some 5"
    by auto
  have w: "wf_table ?T" by (simp add: wf_table_def)
  have l: "(0::int) \<le> 4" by simp
  from inst w l have "\<exists>verified bp_msg s e. resolve_line ?T 4 = Inr (verified, bp_msg, s, e)
            \<and> s \<le> e \<and> e < int (length ?T)
            \<and> (\<forall>j. s < j \<and> j \<le> e \<longrightarrow> ?T ! nat j = None)
            \<and> (e + 1 < int (length ?T) \<longrightarrow> ?T ! nat (e + 1) \<noteq> None)" by blast
  then have c3: "\<exists>verified bp_msg s e. resolve_line ?T 4 = Inr (verified, bp_msg, s, e)
          \<and> s \<le> e \<and> e < 6" by auto
  show ?thesis by (intro conjI a1 c1 b1 b2 b3 b4 c2 w c3)
qed

end
